theory Spec2Isabelle
  imports Complex_Main
begin

section \<open>The tensor framework underneath models/gan.py\<close>

text \<open>
  The module is glue around a tensor library. The library's operations that the module
  calls are modelled here once, each with the failures the library raises:
  a tensor is its shape, its elements in row-major order, the device it lives on and
  the set of autograd leaves its history reaches (empty after \<open>detach\<close>).
  Elements are real numbers: rounding, infinities and NaN elements are outside the
  model. The one NaN the module can produce from finite data, the mean of an empty
  tensor, is kept as a value of its own. Every device named is taken to exist on the
  machine.
\<close>

datatype device = CPU | CUDA

datatype error = ValueError | IndexError | TypeError | RuntimeError

definition bind_r :: "error + 'a \<Rightarrow> ('a \<Rightarrow> error + 'b) \<Rightarrow> error + 'b" where
  "bind_r m f = (case m of Inl e \<Rightarrow> Inl e | Inr x \<Rightarrow> f x)"

record tensor =
  shape :: "nat list"
  data :: "real list"
  device :: device
  grad_src :: "nat set"

definition numel :: "nat list \<Rightarrow> nat" where
  "numel s = prod_list s"

text \<open>Row-major addressing: the flat offset of an index, and the index of an offset.\<close>

fun ravel :: "nat list \<Rightarrow> nat list \<Rightarrow> nat" where
  "ravel (d # s) (i # idx) = i * numel s + ravel s idx"
| "ravel _ _ = 0"

fun unravel :: "nat list \<Rightarrow> nat \<Rightarrow> nat list" where
  "unravel [] k = []"
| "unravel (d # s) k = (k div numel s) # unravel s (k mod numel s)"

definition valid_idx :: "nat list \<Rightarrow> nat list \<Rightarrow> bool" where
  "valid_idx s idx = list_all2 (<) idx s"

definition tget :: "tensor \<Rightarrow> nat list \<Rightarrow> real" where
  "tget x idx = data x ! ravel (shape x) idx"

definition wf_tensor :: "tensor \<Rightarrow> bool" where
  "wf_tensor x = (length (data x) = numel (shape x))"

text \<open>A fresh contiguous tensor of shape \<open>s\<close> whose element at index \<open>idx\<close> is \<open>f idx\<close>.\<close>

definition mk :: "nat list \<Rightarrow> (nat list \<Rightarrow> real) \<Rightarrow> device \<Rightarrow> nat set \<Rightarrow> tensor" where
  "mk s f d g = \<lparr>shape = s, data = map (\<lambda>k. f (unravel s k)) [0..<numel s], device = d, grad_src = g\<rparr>"

definition zeros :: "nat list \<Rightarrow> device \<Rightarrow> tensor" where
  "zeros s d = \<lparr>shape = s, data = replicate (numel s) 0, device = d, grad_src = {}\<rparr>"

text \<open>\<open>x.clone()\<close> and \<open>x.contiguous()\<close> copy the elements: same value, same history.\<close>

definition clone :: "tensor \<Rightarrow> tensor" where
  "clone x = x"

definition contiguous :: "tensor \<Rightarrow> tensor" where
  "contiguous x = x"

text \<open>\<open>x.detach()\<close>: the same elements, cut off from the autograd graph.\<close>

definition detach :: "tensor \<Rightarrow> tensor" where
  "detach x = x\<lparr>grad_src := {}\<rparr>"

text \<open>\<open>x.to(d)\<close> and \<open>x.cuda()\<close>.\<close>

definition to :: "device \<Rightarrow> tensor \<Rightarrow> tensor" where
  "to d x = x\<lparr>device := d\<rparr>"

definition cuda :: "tensor \<Rightarrow> tensor" where
  "cuda x = to CUDA x"

text \<open>\<open>b, t, c, h, w = x.size()\<close>: unpacking fails unless the tensor has five dimensions.\<close>

definition size5 :: "tensor \<Rightarrow> error + (nat \<times> nat \<times> nat \<times> nat \<times> nat)" where
  "size5 x = (case shape x of [b, t, c, h, w] \<Rightarrow> Inr (b, t, c, h, w) | _ \<Rightarrow> Inl ValueError)"

text \<open>
  \<open>x.view(dims)\<close> on a contiguous tensor, \<open>None\<close> standing for \<open>-1\<close>: the element count
  must match; one \<open>-1\<close> is inferred, and cannot be when the other sizes multiply to 0.
\<close>

definition view :: "tensor \<Rightarrow> nat option list \<Rightarrow> error + tensor" where
  "view x dims =
     (let p = prod_list (map (\<lambda>d. case d of None \<Rightarrow> 1 | Some v \<Rightarrow> v) dims);
          n = numel (shape x);
          holes = length (filter (\<lambda>d. d = None) dims)
      in if holes = 0 then
           (if p = n then Inr (x\<lparr>shape := map (\<lambda>d. case d of None \<Rightarrow> 1 | Some v \<Rightarrow> v) dims\<rparr>)
            else Inl RuntimeError)
         else if holes = 1 then
           (if p = 0 \<or> n mod p \<noteq> 0 then Inl RuntimeError
            else Inr (x\<lparr>shape := map (\<lambda>d. case d of None \<Rightarrow> n div p | Some v \<Rightarrow> v) dims\<rparr>))
         else Inl RuntimeError)"

text \<open>\<open>x[:, i:, ...]\<close> and \<open>x[:, :n, ...]\<close>: slices along dimension 1, clipped as Python clips.\<close>

definition slice_from :: "tensor \<Rightarrow> nat \<Rightarrow> error + tensor" where
  "slice_from x i =
     (case shape x of
        d0 # d1 # rest \<Rightarrow>
          Inr (mk (d0 # (d1 - i) # rest) (\<lambda>idx. tget x (idx[1 := idx ! 1 + i])) (device x) (grad_src x))
      | _ \<Rightarrow> Inl IndexError)"

definition slice_to :: "tensor \<Rightarrow> nat \<Rightarrow> error + tensor" where
  "slice_to x n =
     (case shape x of
        d0 # d1 # rest \<Rightarrow>
          Inr (mk (d0 # min n d1 # rest) (\<lambda>idx. tget x idx) (device x) (grad_src x))
      | _ \<Rightarrow> Inl IndexError)"

text \<open>\<open>x[i]\<close>: row \<open>i\<close> along dimension 0.\<close>

definition select0 :: "tensor \<Rightarrow> nat \<Rightarrow> error + tensor" where
  "select0 x i =
     (case shape x of
        d0 # rest \<Rightarrow>
          if i < d0 then Inr (mk rest (\<lambda>idx. tget x (i # idx)) (device x) (grad_src x))
          else Inl IndexError
      | [] \<Rightarrow> Inl IndexError)"

text \<open>
  \<open>torch.cat(xs, dim)\<close>: the list is not empty, the tensors agree on the device, on the
  number of dimensions and on every size but the one at \<open>dim\<close>. (The library also skips
  one-dimensional empty tensors; every tensor the module concatenates has at least two
  dimensions.)
\<close>

fun cat_get :: "tensor list \<Rightarrow> nat \<Rightarrow> nat list \<Rightarrow> real" where
  "cat_get [] ax idx = 0"
| "cat_get (x # xs) ax idx =
     (if idx ! ax < shape x ! ax then tget x idx
      else cat_get xs ax (idx[ax := idx ! ax - shape x ! ax]))"

definition cat_compatible :: "nat \<Rightarrow> tensor \<Rightarrow> tensor \<Rightarrow> bool" where
  "cat_compatible ax x y =
     (length (shape y) = length (shape x) \<and> (shape y)[ax := 0] = (shape x)[ax := 0]
      \<and> device y = device x)"

definition cat :: "tensor list \<Rightarrow> nat \<Rightarrow> error + tensor" where
  "cat xs ax =
     (case xs of
        [] \<Rightarrow> Inl RuntimeError
      | x # ys \<Rightarrow>
          if ax < length (shape x) \<and> list_all (cat_compatible ax x) ys
          then Inr (mk ((shape x)[ax := sum_list (map (\<lambda>y. shape y ! ax) xs)])
                       (cat_get xs ax) (device x) (\<Union> (grad_src ` set xs)))
          else Inl RuntimeError)"

text \<open>
  Element-wise arithmetic with broadcasting: shapes are aligned at the right, and two
  sizes fit when they are equal or one of them is 1. Operands live on one device.
  (A zero-dimensional CPU operand is the library's exception to that; the module has none.)
\<close>

fun broadcast_rev :: "nat list \<Rightarrow> nat list \<Rightarrow> nat list option" where
  "broadcast_rev [] ys = Some ys"
| "broadcast_rev xs [] = Some xs"
| "broadcast_rev (x # xs) (y # ys) =
     (if x = y \<or> y = 1 then map_option ((#) x) (broadcast_rev xs ys)
      else if x = 1 then map_option ((#) y) (broadcast_rev xs ys)
      else None)"

definition broadcast_shapes :: "nat list \<Rightarrow> nat list \<Rightarrow> nat list option" where
  "broadcast_shapes a b = map_option rev (broadcast_rev (rev a) (rev b))"

definition bidx :: "nat list \<Rightarrow> nat list \<Rightarrow> nat list" where
  "bidx s idx = map2 (\<lambda>d i. if d = 1 then 0 else i) s (drop (length idx - length s) idx)"

definition binop :: "(real \<Rightarrow> real \<Rightarrow> real) \<Rightarrow> tensor \<Rightarrow> tensor \<Rightarrow> error + tensor" where
  "binop f x y =
     (if device x \<noteq> device y then Inl RuntimeError
      else case broadcast_shapes (shape x) (shape y) of
             None \<Rightarrow> Inl RuntimeError
           | Some s \<Rightarrow>
               Inr (mk s (\<lambda>idx. f (tget x (bidx (shape x) idx)) (tget y (bidx (shape y) idx)))
                       (device x) (grad_src x \<union> grad_src y)))"

definition add :: "tensor \<Rightarrow> tensor \<Rightarrow> error + tensor" where
  "add x y = binop (+) x y"

definition sub :: "tensor \<Rightarrow> tensor \<Rightarrow> error + tensor" where
  "sub x y = binop (-) x y"

definition mul :: "tensor \<Rightarrow> tensor \<Rightarrow> error + tensor" where
  "mul x y = binop (*) x y"

text \<open>A Python number on the left (\<open>1 - x\<close>), and \<open>x ** 2\<close>.\<close>

definition map_t :: "(real \<Rightarrow> real) \<Rightarrow> tensor \<Rightarrow> tensor" where
  "map_t f x = x\<lparr>data := map f (data x)\<rparr>"

definition rsub :: "real \<Rightarrow> tensor \<Rightarrow> tensor" where
  "rsub a x = map_t (\<lambda>v. a - v) x"

definition pow2 :: "tensor \<Rightarrow> tensor" where
  "pow2 x = map_t (\<lambda>v. v ^ 2) x"

text \<open>\<open>torch.eye(t)\<close> and \<open>torch.ones_like(x)\<close>: fresh tensors with no history.\<close>

definition eye :: "nat \<Rightarrow> tensor" where
  "eye t = mk [t, t] (\<lambda>idx. if idx ! 0 = idx ! 1 then 1 else 0) CPU {}"

definition ones_like :: "tensor \<Rightarrow> tensor" where
  "ones_like x = \<lparr>shape = shape x, data = replicate (numel (shape x)) 1, device = device x, grad_src = {}\<rparr>"

text \<open>
  \<open>torch.mean(x)\<close> is a zero-dimensional tensor; over no elements it is NaN, and NaN
  stays NaN through \<open>+\<close> and \<open>*\<close>.
\<close>

datatype scalar = NaN | Val real

record loss =
  lval :: scalar
  ldevice :: device
  lgrad_src :: "nat set"

definition mean :: "tensor \<Rightarrow> loss" where
  "mean x = \<lparr>lval = (if data x = [] then NaN else Val (sum_list (data x) / real (length (data x)))),
             ldevice = device x, lgrad_src = grad_src x\<rparr>"

fun scalar_add :: "scalar \<Rightarrow> scalar \<Rightarrow> scalar" where
  "scalar_add (Val a) (Val b) = Val (a + b)"
| "scalar_add _ _ = NaN"

fun scalar_scale :: "scalar \<Rightarrow> real \<Rightarrow> scalar" where
  "scalar_scale (Val a) c = Val (a * c)"
| "scalar_scale NaN c = NaN"

definition loss_add :: "loss \<Rightarrow> loss \<Rightarrow> error + loss" where
  "loss_add a b =
     (if ldevice a \<noteq> ldevice b then Inl RuntimeError
      else Inr \<lparr>lval = scalar_add (lval a) (lval b), ldevice = ldevice a,
                lgrad_src = lgrad_src a \<union> lgrad_src b\<rparr>)"

definition loss_scale :: "loss \<Rightarrow> real \<Rightarrow> loss" where
  "loss_scale a c = a\<lparr>lval := scalar_scale (lval a) c\<rparr>"

section \<open>Layers of the library\<close>

text \<open>
  A layer holds its hyper-parameters and its parameter tensors. A parameter is created
  on the CPU as an autograd leaf of its own: \<open>pid\<close> counts the parameters created so
  far and names the leaf, and \<open>init pid k\<close> is the value the initialiser draws for
  element \<open>k\<close> of parameter \<open>pid\<close>.
\<close>

datatype layer =
    Conv2d nat nat nat nat nat tensor "tensor option"
  | InstanceNorm2d nat
  | ReLU
  | LeakyReLU real

definition new_param :: "(nat \<Rightarrow> nat \<Rightarrow> real) \<Rightarrow> nat \<Rightarrow> nat list \<Rightarrow> tensor" where
  "new_param init pid s =
     \<lparr>shape = s, data = map (init pid) [0..<numel s], device = CPU, grad_src = {pid}\<rparr>"

text \<open>\<open>nn.Conv2d(in_ch, out_ch, kernel_size, stride, padding, bias)\<close>: the layer and the next \<open>pid\<close>.\<close>

definition Conv2d_new ::
  "(nat \<Rightarrow> nat \<Rightarrow> real) \<Rightarrow> nat \<Rightarrow> nat \<Rightarrow> nat \<Rightarrow> nat \<Rightarrow> nat \<Rightarrow> nat \<Rightarrow> bool \<Rightarrow> layer \<times> nat" where
  "Conv2d_new init pid in_ch out_ch kernel_size stride padding bias =
     (if bias then
        (Conv2d in_ch out_ch kernel_size stride padding
           (new_param init pid [out_ch, in_ch, kernel_size, kernel_size])
           (Some (new_param init (pid + 1) [out_ch])), pid + 2)
      else
        (Conv2d in_ch out_ch kernel_size stride padding
           (new_param init pid [out_ch, in_ch, kernel_size, kernel_size]) None, pid + 1))"

text \<open>The size a convolution leaves of a side of length \<open>h\<close>.\<close>

definition conv_out :: "nat \<Rightarrow> nat \<Rightarrow> nat \<Rightarrow> nat \<Rightarrow> nat" where
  "conv_out h k s p = (h + 2 * p - k) div s + 1"

definition padded :: "tensor \<Rightarrow> nat \<Rightarrow> nat \<Rightarrow> nat \<Rightarrow> nat \<Rightarrow> nat \<Rightarrow> real" where
  "padded x p n c yy xx =
     (if p \<le> yy \<and> yy - p < shape x ! 2 \<and> p \<le> xx \<and> xx - p < shape x ! 3
      then tget x [n, c, yy - p, xx - p] else 0)"

text \<open>
  The convolution takes a batch \<open>(N, C, H, W)\<close> on the device of its weights, with the
  channel count it was built for, and a padded side no shorter than the kernel. The
  module only ever hands it such batches; an unbatched \<open>(C, H, W)\<close> input, which later
  versions of the library accept, is treated as the error it was.
\<close>

definition conv2d ::
  "nat \<Rightarrow> nat \<Rightarrow> nat \<Rightarrow> nat \<Rightarrow> nat \<Rightarrow> tensor \<Rightarrow> tensor option \<Rightarrow> tensor \<Rightarrow> error + tensor" where
  "conv2d cin cout k s p w b x =
     (case shape x of
        [n, c, h, wd] \<Rightarrow>
          if c \<noteq> cin \<or> device x \<noteq> device w \<or> k = 0 \<or> s = 0 \<or> h + 2 * p < k \<or> wd + 2 * p < k
          then Inl RuntimeError
          else Inr (mk [n, cout, conv_out h k s p, conv_out wd k s p]
                 (\<lambda>idx. (case b of None \<Rightarrow> 0 | Some bt \<Rightarrow> tget bt [idx ! 1])
                    + (\<Sum>ci\<leftarrow>[0..<cin]. \<Sum>ky\<leftarrow>[0..<k]. \<Sum>kx\<leftarrow>[0..<k].
                         tget w [idx ! 1, ci, ky, kx]
                           * padded x p (idx ! 0) ci (idx ! 2 * s + ky) (idx ! 3 * s + kx)))
                 (device x)
                 (grad_src x \<union> grad_src w \<union> (case b of None \<Rightarrow> {} | Some bt \<Rightarrow> grad_src bt)))
      | _ \<Rightarrow> Inl RuntimeError)"

text \<open>
  \<open>nn.InstanceNorm2d(c)\<close> as the module builds it (no affine parameters, no running
  statistics, \<open>eps = 1e-5\<close>): every plane \<open>(n, c)\<close> is normalised by its own mean and
  biased variance. The library refuses a batch whose planes have a single element.
\<close>

definition instance_norm :: "tensor \<Rightarrow> error + tensor" where
  "instance_norm x =
     (case shape x of
        [n, c, h, wd] \<Rightarrow>
          if h * wd = 1 then Inl ValueError
          else Inr (mk [n, c, h, wd]
                 (\<lambda>idx. let plane = map (\<lambda>k. tget x [idx ! 0, idx ! 1, k div wd, k mod wd]) [0..<h * wd];
                             mu = sum_list plane / real (h * wd);
                             var = (\<Sum>v\<leftarrow>plane. (v - mu) ^ 2) / real (h * wd)
                         in (tget x idx - mu) / sqrt (var + 1 / 100000))
                 (device x) (grad_src x))
      | _ \<Rightarrow> Inl ValueError)"

fun apply_layer :: "layer \<Rightarrow> tensor \<Rightarrow> error + tensor" where
  "apply_layer (Conv2d cin cout k s p w b) x = conv2d cin cout k s p w b x"
| "apply_layer (InstanceNorm2d c) x = instance_norm x"
| "apply_layer ReLU x = Inr (map_t (\<lambda>v. max 0 v) x)"
| "apply_layer (LeakyReLU a) x = Inr (map_t (\<lambda>v. max 0 v + a * min 0 v) x)"

text \<open>\<open>nn.Sequential(*layers)\<close> applied to \<open>x\<close>: the layers in order, stopping at the first failure.\<close>

fun Sequential :: "layer list \<Rightarrow> tensor \<Rightarrow> error + tensor" where
  "Sequential [] x = Inr x"
| "Sequential (l # ls) x = bind_r (apply_layer l x) (Sequential ls)"

fun layer_params :: "layer \<Rightarrow> tensor list" where
  "layer_params (Conv2d cin cout k s p w b) = w # (case b of None \<Rightarrow> [] | Some bt \<Rightarrow> [bt])"
| "layer_params _ = []"

fun layer_to :: "device \<Rightarrow> layer \<Rightarrow> layer" where
  "layer_to d (Conv2d cin cout k s p w b) = Conv2d cin cout k s p (to d w) (map_option (to d) b)"
| "layer_to d l = l"

section \<open>ConvNormAct\<close>

text \<open>
  The module is its \<open>self.main\<close>, the list of layers handed to \<open>nn.Sequential\<close>.
  An \<open>act_type\<close> that is neither \<open>'relu'\<close> nor \<open>'lrelu'\<close> falls through both tests.
\<close>

definition ConvNormAct ::
  "(nat \<Rightarrow> nat \<Rightarrow> real) \<Rightarrow> nat \<Rightarrow> nat \<Rightarrow> nat \<Rightarrow> nat \<Rightarrow> nat \<Rightarrow> nat \<Rightarrow> string \<Rightarrow> layer list \<times> nat" where
  "ConvNormAct init pid in_ch out_ch kernel_size stride padding act_type =
     (let (conv, pid') = Conv2d_new init pid in_ch out_ch kernel_size stride padding True;
          layers = [] @ [conv];
          layers = layers @ [InstanceNorm2d out_ch];
          layers = (if act_type = ''relu'' then layers @ [ReLU]
                    else if act_type = ''lrelu'' then layers @ [LeakyReLU (2 / 10)]
                    else layers)
      in (layers, pid'))"

definition ConvNormAct_forward :: "layer list \<Rightarrow> tensor \<Rightarrow> error + tensor" where
  "ConvNormAct_forward main x = Sequential main x"

section \<open>Discriminator\<close>

record discriminator =
  self_device :: device
  seq :: bool
  is_extrap :: bool
  layer_1 :: "layer list"
  layer_2 :: "layer list"
  layer_3 :: "layer list"
  layer_4 :: "layer list"
  last_conv :: layer

text \<open>
  \<open>Discriminator(in_ch, device, seq, is_extrap)\<close>. \<open>in_ch\<close> is a Python integer; the
  library cannot allocate a weight with a negative dimension.
\<close>

definition Discriminator ::
  "(nat \<Rightarrow> nat \<Rightarrow> real) \<Rightarrow> nat \<Rightarrow> int \<Rightarrow> device \<Rightarrow> bool \<Rightarrow> bool \<Rightarrow> error + discriminator \<times> nat" where
  "Discriminator init pid in_ch dev sq ex =
     (if in_ch < 0 then Inl RuntimeError
      else
        let (c1, p1) = Conv2d_new init pid (nat in_ch) 64 4 2 1 False;
            (l2, p2) = ConvNormAct init p1 64 128 4 2 1 ''lrelu'';
            (l3, p3) = ConvNormAct init p2 128 256 4 2 1 ''lrelu'';
            (l4, p4) = ConvNormAct init p3 256 512 4 1 2 ''lrelu'';
            (c5, p5) = Conv2d_new init p4 512 64 4 1 2 False
        in Inr (\<lparr>self_device = dev, seq = sq, is_extrap = ex,
                  layer_1 = [c1, LeakyReLU (2 / 10)],
                  layer_2 = l2, layer_3 = l3, layer_4 = l4, last_conv = c5\<rparr>, p5))"

text \<open>\<open>module.to(device)\<close> moves every parameter; \<open>module.parameters()\<close> lists them in order.\<close>

definition to_D :: "device \<Rightarrow> discriminator \<Rightarrow> discriminator" where
  "to_D d D = D\<lparr>layer_1 := map (layer_to d) (layer_1 D), layer_2 := map (layer_to d) (layer_2 D),
               layer_3 := map (layer_to d) (layer_3 D), layer_4 := map (layer_to d) (layer_4 D),
               last_conv := layer_to d (last_conv D)\<rparr>"

definition parameters :: "discriminator \<Rightarrow> tensor list" where
  "parameters D =
     concat (map layer_params (layer_1 D @ layer_2 D @ layer_3 D @ layer_4 D @ [last_conv D]))"

definition forward :: "discriminator \<Rightarrow> tensor \<Rightarrow> error + tensor" where
  "forward D x =
     bind_r (Sequential (layer_1 D) (clone x)) (\<lambda>h1.
     bind_r (ConvNormAct_forward (layer_2 D) (clone h1)) (\<lambda>h2.
     bind_r (ConvNormAct_forward (layer_3 D) (clone h2)) (\<lambda>h3.
     bind_r (ConvNormAct_forward (layer_4 D) (clone h3)) (\<lambda>h4.
     apply_layer (last_conv D) (clone h4)))))"

subsection \<open>rearrange_seq\<close>

text \<open>The body of the loop: one window, \<open>torch.cat([input_real[:, i:, ...], x[:, :i+1, ...]], dim=1)\<close>.\<close>

definition seq_window :: "tensor \<Rightarrow> tensor \<Rightarrow> nat \<Rightarrow> error + tensor" where
  "seq_window input_real x i =
     bind_r (slice_from input_real i) (\<lambda>a.
     bind_r (slice_to x (i + 1)) (\<lambda>b.
     cat [clone a, clone b] 1))"

text \<open>\<open>for i in range(t): seqs = seqs + [body(i)]\<close>.\<close>

fun collect :: "(nat \<Rightarrow> error + tensor) \<Rightarrow> nat list \<Rightarrow> tensor list \<Rightarrow> error + tensor list" where
  "collect body [] seqs = Inr seqs"
| "collect body (i # is) seqs = bind_r (body i) (\<lambda>s. collect body is (seqs @ [s]))"

text \<open>What the two rearrangements return: the fake tensor alone, or the pair \<open>(real, fake)\<close>.\<close>

datatype seqs = FakeOnly tensor | RealFake tensor tensor

definition rearrange_seq :: "tensor option \<Rightarrow> tensor \<Rightarrow> tensor \<Rightarrow> bool \<Rightarrow> error + seqs" where
  "rearrange_seq real_t fake input_real only_fake =
     bind_r (size5 fake) (\<lambda>(b, t, c, h, w).
     bind_r (collect (seq_window input_real fake) [0..<t] []) (\<lambda>fake_seqs.
     bind_r (cat fake_seqs 0) (\<lambda>fs.
     bind_r (view fs [Some (b * t), None, Some h, Some w]) (\<lambda>fake_seqs.
     if only_fake then Inr (FakeOnly (clone fake_seqs))
     else case real_t of
            None \<Rightarrow> Inl TypeError
          | Some r \<Rightarrow>
              bind_r (collect (seq_window input_real r) [0..<t] []) (\<lambda>real_seqs.
              bind_r (cat real_seqs 0) (\<lambda>rs.
              bind_r (view rs [Some (b * t), None, Some h, Some w]) (\<lambda>real_seqs.
              Inr (RealFake (clone real_seqs) (clone fake_seqs)))))))))"

subsection \<open>rearrange_seq_interp\<close>

text \<open>
  The body of the loop: \<open>(1 - m) * input_real + m * x\<close> with \<open>m = mask[i].view(1, -1, 1, 1, 1)\<close>.
  The mask is created on the CUDA device whatever \<open>self.device\<close> is.
\<close>

definition interp_window :: "tensor \<Rightarrow> tensor \<Rightarrow> tensor \<Rightarrow> nat \<Rightarrow> error + tensor" where
  "interp_window mask_t input_real x i =
     bind_r (select0 mask_t i) (\<lambda>row.
     bind_r (view row [Some 1, None, Some 1, Some 1, Some 1]) (\<lambda>m.
     let reshaped_mask = clone m in
     bind_r (mul (rsub 1 reshaped_mask) (clone input_real)) (\<lambda>keep.
     bind_r (mul reshaped_mask (clone x)) (\<lambda>put.
     add keep put))))"

definition rearrange_seq_interp :: "tensor option \<Rightarrow> tensor \<Rightarrow> tensor \<Rightarrow> bool \<Rightarrow> error + seqs" where
  "rearrange_seq_interp real_t fake input_real only_fake =
     bind_r (size5 fake) (\<lambda>(b, t, c, h, w).
     let mask_t = clone (cuda (eye t)) in
     bind_r (collect (interp_window mask_t input_real fake) [0..<t] []) (\<lambda>fake_seqs.
     bind_r (cat fake_seqs 0) (\<lambda>fs.
     bind_r (view fs [Some (b * t), None, Some h, Some w]) (\<lambda>fake_seqs.
     if only_fake then Inr (FakeOnly (clone fake_seqs))
     else case real_t of
            None \<Rightarrow> Inl TypeError
          | Some r \<Rightarrow>
              bind_r (collect (interp_window mask_t input_real r) [0..<t] []) (\<lambda>real_seqs.
              bind_r (cat real_seqs 0) (\<lambda>rs.
              bind_r (view rs [Some (b * t), None, Some h, Some w]) (\<lambda>real_seqs.
              Inr (RealFake (clone real_seqs) (clone fake_seqs)))))))))"

subsection \<open>The adversarial losses\<close>

text \<open>
  Lines 54 to 62 of netD_adv_loss: the tensors handed to the network. In sequence mode
  the pair comes from one of the two rearrangements; otherwise both tensors are viewed
  as \<open>(-1, c, h, w)\<close> with \<open>c, h, w\<close> read from \<open>fake\<close>.
\<close>

definition netD_inputs :: "discriminator \<Rightarrow> tensor \<Rightarrow> tensor \<Rightarrow> tensor \<Rightarrow> error + tensor \<times> tensor" where
  "netD_inputs D real_t fake input_real =
     (if seq D then
        bind_r (if is_extrap D
                then rearrange_seq (Some (clone real_t)) (clone fake) (clone input_real) False
                else rearrange_seq_interp (Some (clone real_t)) (clone fake) (clone input_real) False)
          (\<lambda>r. case r of RealFake real' fake' \<Rightarrow> Inr (real', fake') | FakeOnly f \<Rightarrow> Inl TypeError)
      else
        bind_r (size5 fake) (\<lambda>(b, t, c, h, w).
        bind_r (view (contiguous real_t) [None, Some c, Some h, Some w]) (\<lambda>real'.
        bind_r (view (contiguous fake) [None, Some c, Some h, Some w]) (\<lambda>fake'.
        Inr (clone real', clone fake')))))"

definition netD_adv_loss :: "discriminator \<Rightarrow> tensor \<Rightarrow> tensor \<Rightarrow> tensor \<Rightarrow> error + loss" where
  "netD_adv_loss D real_t fake input_real =
     bind_r (netD_inputs D real_t fake input_real) (\<lambda>(real_t, fake).
     bind_r (forward D (clone (detach fake))) (\<lambda>pred_fake.
     bind_r (forward D (clone real_t)) (\<lambda>pred_real.
     let real_label = to (self_device D) (ones_like pred_real);
         loss_fake = mean (pow2 pred_fake)
     in
     bind_r (sub pred_real (clone real_label)) (\<lambda>diff.
     let loss_real = mean (pow2 diff) in
     bind_r (loss_add loss_real loss_fake) (\<lambda>total.
     Inr (loss_scale total (1 / 2)))))))"

text \<open>Lines 76 to 83 of netG_adv_loss: the tensor handed to the network.\<close>

definition netG_inputs :: "discriminator \<Rightarrow> tensor \<Rightarrow> tensor \<Rightarrow> error + tensor" where
  "netG_inputs D fake input_real =
     bind_r (size5 fake) (\<lambda>(b, t, c, h, w).
     if seq D then
       bind_r (if is_extrap D
               then rearrange_seq None (clone fake) (clone input_real) True
               else rearrange_seq_interp None (clone fake) (clone input_real) True)
         (\<lambda>r. case r of FakeOnly fake' \<Rightarrow> Inr fake' | RealFake r' f' \<Rightarrow> Inl TypeError)
     else
       bind_r (view (contiguous fake) [None, Some c, Some h, Some w]) (\<lambda>fake'.
       Inr (clone fake')))"

definition netG_adv_loss :: "discriminator \<Rightarrow> tensor \<Rightarrow> tensor \<Rightarrow> error + loss" where
  "netG_adv_loss D fake input_real =
     bind_r (netG_inputs D fake input_real) (\<lambda>fake.
     bind_r (forward D (clone fake)) (\<lambda>pred_fake.
     let real_label = clone (to (self_device D) (ones_like pred_fake)) in
     bind_r (sub pred_fake real_label) (\<lambda>diff.
     let loss_real = mean (pow2 diff) in
     Inr loss_real)))"

section \<open>create_netD\<close>

record opt =
  sample_size :: int
  irregular :: bool
  extrap :: bool
  lr :: real

record optimizer =
  opt_params :: "tensor list"
  opt_lr :: real

text \<open>\<open>optim.Adamax(params, lr)\<close> refuses an empty parameter list and a negative learning rate.\<close>

definition Adamax :: "tensor list \<Rightarrow> real \<Rightarrow> error + optimizer" where
  "Adamax params rate =
     (if params = [] \<or> rate < 0 then Inl ValueError
      else Inr \<lparr>opt_params = params, opt_lr = rate\<rparr>)"

text \<open>Lines 145 to 150: the sequence length. \<open>//\<close> is Python's floor division.\<close>

definition seq_len_of :: "opt \<Rightarrow> int" where
  "seq_len_of cfg =
     (let seq_len = sample_size cfg div 2;
          seq_len = (if irregular cfg \<and> \<not> extrap cfg then sample_size cfg else seq_len);
          seq_len = (if extrap cfg then seq_len + 1 else seq_len)
      in seq_len)"

definition create_netD ::
  "(nat \<Rightarrow> nat \<Rightarrow> real) \<Rightarrow> nat \<Rightarrow> opt \<Rightarrow> device
     \<Rightarrow> error + discriminator \<times> discriminator \<times> optimizer" where
  "create_netD init pid cfg dev =
     (let seq_len = seq_len_of cfg in
      bind_r (Discriminator init pid 3 dev False (extrap cfg)) (\<lambda>(img, pid1).
      let netD_img = to_D dev img in
      bind_r (Discriminator init pid1 (3 * seq_len) dev True (extrap cfg)) (\<lambda>(sq, pid2).
      let netD_seq = to_D dev sq in
      bind_r (Adamax (parameters netD_img @ parameters netD_seq) (lr cfg)) (\<lambda>optimizer_netD.
      Inr (netD_img, netD_seq, optimizer_netD)))))"

section \<open>Observers used in the statements\<close>

text \<open>The shape, device and history of a tensor whose elements fill its shape.\<close>

definition meta :: "tensor \<Rightarrow> nat list \<Rightarrow> device \<Rightarrow> nat set \<Rightarrow> bool" where
  "meta y s d g = (shape y = s \<and> device y = d \<and> grad_src y = g \<and> wf_tensor y)"

text \<open>The input channel count of a Discriminator: that of the convolution in \<open>layer_1\<close>.\<close>

definition in_channels :: "discriminator \<Rightarrow> nat" where
  "in_channels D = (case layer_1 D of Conv2d cin cout k s p w b # ls \<Rightarrow> cin | _ \<Rightarrow> 0)"

section \<open>Facts about the framework\<close>

subsection \<open>Results and addressing\<close>

lemma bind_r_Inr [simp]: "bind_r (Inr x) f = f x" by (simp add: bind_r_def)
lemma bind_r_Inl [simp]: "bind_r (Inl e) f = Inl e" by (simp add: bind_r_def)
lemma bind_r_eq_Inr: "(bind_r m f = Inr y) = (\<exists>x. m = Inr x \<and> f x = Inr y)"
  by (cases m) auto

lemma numel_Nil [simp]: "numel [] = 1" by (simp add: numel_def)
lemma numel_Cons [simp]: "numel (d # s) = d * numel s" by (simp add: numel_def)

lemma valid_idx_Nil [simp]: "valid_idx [] idx = (idx = [])" by (simp add: valid_idx_def)
lemma valid_idx_Cons: "valid_idx (d # s) idx = (\<exists>i r. idx = i # r \<and> i < d \<and> valid_idx s r)"
  by (cases idx) (auto simp: valid_idx_def)
lemma valid_idx_Cons_Cons [simp]: "valid_idx (d # s) (i # r) = (i < d \<and> valid_idx s r)"
  by (simp add: valid_idx_def)

lemma ravel_less: "valid_idx s idx \<Longrightarrow> ravel s idx < numel s"
proof (induction s arbitrary: idx)
  case Nil then show ?case by simp
next
  case (Cons d s)
  then obtain i r where idx: "idx = i # r" "i < d" "valid_idx s r" by (auto simp: valid_idx_Cons)
  from Cons.IH[OF idx(3)] have "ravel s r < numel s" .
  moreover have "i * numel s + numel s \<le> d * numel s"
    using idx(2) by (metis Suc_leI mult_Suc mult_le_mono1 add.commute)
  ultimately show ?case using idx by simp
qed

lemma unravel_ravel: "valid_idx s idx \<Longrightarrow> unravel s (ravel s idx) = idx"
proof (induction s arbitrary: idx)
  case Nil then show ?case by simp
next
  case (Cons d s)
  then obtain i r where idx: "idx = i # r" "i < d" "valid_idx s r" by (auto simp: valid_idx_Cons)
  have lt: "ravel s r < numel s" by (rule ravel_less[OF idx(3)])
  show ?case using idx lt Cons.IH[OF idx(3)] by simp
qed

lemma valid_unravel: "k < numel s \<Longrightarrow> valid_idx s (unravel s k)"
proof (induction s arbitrary: k)
  case Nil then show ?case by simp
next
  case (Cons d s)
  have pos: "0 < numel s" using Cons.prems by (cases "numel s") auto
  have "k div numel s < d" using Cons.prems pos by (simp add: less_mult_imp_div_less mult.commute)
  moreover have "valid_idx s (unravel s (k mod numel s))" using pos by (intro Cons.IH) simp
  ultimately show ?case by simp
qed

lemma ravel_unravel: "k < numel s \<Longrightarrow> ravel s (unravel s k) = k"
proof (induction s arbitrary: k)
  case Nil then show ?case by simp
next
  case (Cons d s)
  have pos: "0 < numel s" using Cons.prems by (cases "numel s") auto
  have "ravel s (unravel s (k mod numel s)) = k mod numel s" using pos by (intro Cons.IH) simp
  then show ?case by simp
qed

lemma shape_mk [simp]: "shape (mk s f d g) = s" by (simp add: mk_def)
lemma device_mk [simp]: "device (mk s f d g) = d" by (simp add: mk_def)
lemma grad_src_mk [simp]: "grad_src (mk s f d g) = g" by (simp add: mk_def)
lemma length_data_mk [simp]: "length (data (mk s f d g)) = numel s" by (simp add: mk_def)
lemma wf_mk [simp]: "wf_tensor (mk s f d g)" by (simp add: wf_tensor_def)
lemma tget_mk: "valid_idx s idx \<Longrightarrow> tget (mk s f d g) idx = f idx"
  using ravel_less[of s idx] unravel_ravel[of s idx] by (simp add: tget_def mk_def)

subsection \<open>Layers and the forward pass\<close>

lemma meta_mk [simp]: "meta (mk s f d g) s' d' g' = (s = s' \<and> d = d' \<and> g = g')"
  by (auto simp: meta_def)

lemma shape_map_t [simp]: "shape (map_t f x) = shape x" by (simp add: map_t_def)
lemma device_map_t [simp]: "device (map_t f x) = device x" by (simp add: map_t_def)
lemma grad_src_map_t [simp]: "grad_src (map_t f x) = grad_src x" by (simp add: map_t_def)
lemma data_map_t [simp]: "data (map_t f x) = map f (data x)" by (simp add: map_t_def)
lemma wf_map_t [simp]: "wf_tensor (map_t f x) = wf_tensor x" by (simp add: wf_tensor_def)
lemma meta_map_t [simp]: "meta (map_t f x) s d g = meta x s d g"
  by (simp add: meta_def)

lemma meta_clone [simp]: "meta (clone x) s d g = meta x s d g"
  by (simp add: clone_def)

lemma conv2d_Inr:
  "conv2d cin cout k s p w b x = Inr y \<Longrightarrow>
     \<exists>n h wd. shape x = [n, cin, h, wd] \<and> device x = device w \<and> 0 < k \<and> 0 < s
       \<and> k \<le> h + 2 * p \<and> k \<le> wd + 2 * p
       \<and> meta y [n, cout, conv_out h k s p, conv_out wd k s p] (device x)
            (grad_src x \<union> grad_src w \<union> (case b of None \<Rightarrow> {} | Some bt \<Rightarrow> grad_src bt))"
  by (auto simp: conv2d_def split: list.splits if_splits)

lemma conv2d_ok:
  "shape x = [n, cin, h, wd] \<Longrightarrow> device x = device w \<Longrightarrow> 0 < k \<Longrightarrow> 0 < s
     \<Longrightarrow> k \<le> h + 2 * p \<Longrightarrow> k \<le> wd + 2 * p \<Longrightarrow> \<exists>y. conv2d cin cout k s p w b x = Inr y"
  by (auto simp: conv2d_def)

lemma instance_norm_Inr:
  "instance_norm x = Inr y \<Longrightarrow>
     \<exists>n c h wd. shape x = [n, c, h, wd] \<and> h * wd \<noteq> 1 \<and> meta y [n, c, h, wd] (device x) (grad_src x)"
  by (auto simp: instance_norm_def split: list.splits if_splits)

lemma instance_norm_ok:
  "shape x = [n, c, h, wd] \<Longrightarrow> h * wd \<noteq> 1 \<Longrightarrow> \<exists>y. instance_norm x = Inr y"
  by (auto simp: instance_norm_def)

lemma block_Inr:
  assumes "Sequential [Conv2d cin cout k s p w (Some b), InstanceNorm2d c', LeakyReLU a] x = Inr y"
  shows "\<exists>n h wd. shape x = [n, cin, h, wd] \<and> device x = device w \<and> 0 < k \<and> 0 < s
       \<and> k \<le> h + 2 * p \<and> k \<le> wd + 2 * p \<and> conv_out h k s p * conv_out wd k s p \<noteq> 1
       \<and> meta y [n, cout, conv_out h k s p, conv_out wd k s p] (device x)
            (grad_src x \<union> grad_src w \<union> grad_src b)"
proof -
  from assms obtain y1 y2 where
    1: "conv2d cin cout k s p w (Some b) x = Inr y1" and 2: "instance_norm y1 = Inr y2"
    and 3: "y = map_t (\<lambda>v. max 0 v + a * min 0 v) y2"
    by (auto simp: bind_r_eq_Inr)
  from conv2d_Inr[OF 1] instance_norm_Inr[OF 2] 3 show ?thesis
    by (auto simp: meta_def)
qed

lemma block_ok:
  assumes "shape x = [n, cin, h, wd]" "device x = device w" "0 < k" "0 < s"
     "k \<le> h + 2 * p" "k \<le> wd + 2 * p" "conv_out h k s p * conv_out wd k s p \<noteq> 1"
  shows "\<exists>y. Sequential [Conv2d cin cout k s p w (Some b), InstanceNorm2d c', LeakyReLU a] x = Inr y"
proof -
  from conv2d_ok[OF assms(1-6)] obtain y1 where 1: "conv2d cin cout k s p w (Some b) x = Inr y1" by blast
  from conv2d_Inr[OF 1] assms(1) have "shape y1 = [n, cout, conv_out h k s p, conv_out wd k s p]"
    by (auto simp: meta_def)
  from instance_norm_ok[OF this assms(7)] obtain y2 where "instance_norm y1 = Inr y2" by blast
  with 1 show ?thesis by simp
qed

lemma device_to [simp]: "device (to d x) = d" by (simp add: to_def)
lemma grad_src_to [simp]: "grad_src (to d x) = grad_src x" by (simp add: to_def)
lemma shape_to [simp]: "shape (to d x) = shape x" by (simp add: to_def)
lemma data_to [simp]: "data (to d x) = data x" by (simp add: to_def)
lemma grad_src_new_param [simp]: "grad_src (new_param init q s) = {q}" by (simp add: new_param_def)
lemma shape_new_param [simp]: "shape (new_param init q s) = s" by (simp add: new_param_def)

lemma conv_out_half: "2 \<le> h \<Longrightarrow> conv_out h 4 2 1 = h div 2"
  by (simp add: conv_out_def)

lemma conv_out_half_Suc: "2 \<le> h \<Longrightarrow> conv_out h 4 2 (Suc 0) = h div 2"
  by (simp add: conv_out_def)

lemma conv_out_same: "conv_out h 4 1 2 = h + 1"
  by (simp add: conv_out_def)

lemma div3_eq_div8: "(h::nat) div 2 div 2 div 2 = h div 8"
  by (simp add: div_mult2_eq[symmetric])

lemma div4_ge2: "2 \<le> (h::nat) div 2 div 2 \<Longrightarrow> 8 \<le> h"
  by (simp add: div_mult2_eq[symmetric])

lemma div8_eq1: "8 \<le> (h::nat) \<Longrightarrow> \<not> 16 \<le> h \<Longrightarrow> h div 8 = 1"
  by arith

lemma eight_ids:
  "g \<union> {pid} \<union> {pid + 1} \<union> {pid + 2} \<union> {pid + 3} \<union> {pid + 4} \<union> {pid + 5} \<union> {pid + 6} \<union> {pid + 7}
     = g \<union> {pid..<pid + (8::nat)}"
proof -
  have "{pid..<pid + 8} = {pid, pid + 1, pid + 2, pid + 3, pid + 4, pid + 5, pid + 6, pid + 7}"
    by (auto simp: atLeastLessThan_def)
  then show ?thesis by auto
qed

lemma built_layers:
  assumes "Discriminator init pid ic dv sq ex = Inr (D0, p)"
  shows "0 \<le> ic" "p = pid + 8"
    "layer_1 (to_D d D0) = [Conv2d (nat ic) 64 4 2 1 (to d (new_param init pid [64, nat ic, 4, 4])) None, LeakyReLU (2 / 10)]"
    "layer_2 (to_D d D0) = [Conv2d 64 128 4 2 1 (to d (new_param init (pid + 1) [128, 64, 4, 4]))
        (Some (to d (new_param init (pid + 2) [128]))), InstanceNorm2d 128, LeakyReLU (2 / 10)]"
    "layer_3 (to_D d D0) = [Conv2d 128 256 4 2 1 (to d (new_param init (pid + 3) [256, 128, 4, 4]))
        (Some (to d (new_param init (pid + 4) [256]))), InstanceNorm2d 256, LeakyReLU (2 / 10)]"
    "layer_4 (to_D d D0) = [Conv2d 256 512 4 1 2 (to d (new_param init (pid + 5) [512, 256, 4, 4]))
        (Some (to d (new_param init (pid + 6) [512]))), InstanceNorm2d 512, LeakyReLU (2 / 10)]"
    "last_conv (to_D d D0) = Conv2d 512 64 4 1 2 (to d (new_param init (pid + 7) [64, 512, 4, 4])) None"
    "self_device (to_D d D0) = dv" "seq (to_D d D0) = sq" "is_extrap (to_D d D0) = ex"
proof -
  have e: "pid + 2 = Suc (Suc pid)" "pid + 3 = Suc (Suc (Suc pid))" "pid + 4 = Suc (Suc (Suc (Suc pid)))"
    "pid + 5 = Suc (Suc (Suc (Suc (Suc pid))))" "pid + 6 = Suc (Suc (Suc (Suc (Suc (Suc pid)))))"
    "pid + 7 = Suc (Suc (Suc (Suc (Suc (Suc (Suc pid))))))"
    "pid + 8 = Suc (Suc (Suc (Suc (Suc (Suc (Suc (Suc pid)))))))"
    by simp_all
  from assms have D0: "0 \<le> ic \<and> p = pid + 8 \<and> D0 = \<lparr>self_device = dv, seq = sq, is_extrap = ex,
        layer_1 = [Conv2d (nat ic) 64 4 2 1 (new_param init pid [64, nat ic, 4, 4]) None, LeakyReLU (2 / 10)],
        layer_2 = [Conv2d 64 128 4 2 1 (new_param init (pid + 1) [128, 64, 4, 4])
                     (Some (new_param init (pid + 2) [128])), InstanceNorm2d 128, LeakyReLU (2 / 10)],
        layer_3 = [Conv2d 128 256 4 2 1 (new_param init (pid + 3) [256, 128, 4, 4])
                     (Some (new_param init (pid + 4) [256])), InstanceNorm2d 256, LeakyReLU (2 / 10)],
        layer_4 = [Conv2d 256 512 4 1 2 (new_param init (pid + 5) [512, 256, 4, 4])
                     (Some (new_param init (pid + 6) [512])), InstanceNorm2d 512, LeakyReLU (2 / 10)],
        last_conv = Conv2d 512 64 4 1 2 (new_param init (pid + 7) [64, 512, 4, 4]) None\<rparr>"
    unfolding e
    by (auto simp: Discriminator_def Conv2d_new_def ConvNormAct_def Let_def split: if_splits)
  then show "0 \<le> ic" "p = pid + 8" by simp_all
  show "layer_1 (to_D d D0) = [Conv2d (nat ic) 64 4 2 1 (to d (new_param init pid [64, nat ic, 4, 4])) None, LeakyReLU (2 / 10)]"
    "layer_2 (to_D d D0) = [Conv2d 64 128 4 2 1 (to d (new_param init (pid + 1) [128, 64, 4, 4]))
        (Some (to d (new_param init (pid + 2) [128]))), InstanceNorm2d 128, LeakyReLU (2 / 10)]"
    "layer_3 (to_D d D0) = [Conv2d 128 256 4 2 1 (to d (new_param init (pid + 3) [256, 128, 4, 4]))
        (Some (to d (new_param init (pid + 4) [256]))), InstanceNorm2d 256, LeakyReLU (2 / 10)]"
    "layer_4 (to_D d D0) = [Conv2d 256 512 4 1 2 (to d (new_param init (pid + 5) [512, 256, 4, 4]))
        (Some (to d (new_param init (pid + 6) [512]))), InstanceNorm2d 512, LeakyReLU (2 / 10)]"
    "last_conv (to_D d D0) = Conv2d 512 64 4 1 2 (to d (new_param init (pid + 7) [64, 512, 4, 4])) None"
    "self_device (to_D d D0) = dv" "seq (to_D d D0) = sq" "is_extrap (to_D d D0) = ex"
    using D0 by (simp_all add: to_D_def)
qed

lemma forward_Inr:
  assumes built: "Discriminator init pid ic dv sq ex = Inr (D0, p)"
      and fw: "forward (to_D d D0) x = Inr y"
  shows "\<exists>n h w. shape x = [n, nat ic, h, w] \<and> device x = d \<and> 8 \<le> h \<and> 8 \<le> w \<and> (16 \<le> h \<or> 16 \<le> w)
           \<and> meta y [n, 64, h div 8 + 2, w div 8 + 2] d (grad_src x \<union> {pid..<pid + 8})"
proof -
  note L = built_layers[OF built]
  from fw obtain h1 h2 h3 h4 where
    1: "Sequential (layer_1 (to_D d D0)) x = Inr h1" and
    2: "Sequential (layer_2 (to_D d D0)) h1 = Inr h2" and
    3: "Sequential (layer_3 (to_D d D0)) h2 = Inr h3" and
    4: "Sequential (layer_4 (to_D d D0)) h3 = Inr h4" and
    5: "apply_layer (last_conv (to_D d D0)) h4 = Inr y"
    by (auto simp: forward_def bind_r_eq_Inr clone_def ConvNormAct_forward_def)
  from 1 obtain c1 where c1: "conv2d (nat ic) 64 4 2 1 (to d (new_param init pid [64, nat ic, 4, 4])) None x = Inr c1"
    and h1: "h1 = map_t (\<lambda>v. max 0 v + (2 / 10) * min 0 v) c1"
    unfolding L by (auto simp: bind_r_eq_Inr)
  from conv2d_Inr[OF c1] h1 obtain n h w where
    x: "shape x = [n, nat ic, h, w]" "device x = d" "2 \<le> h" "2 \<le> w" and
    m1: "meta h1 [n, 64, conv_out h 4 2 1, conv_out w 4 2 1] d (grad_src x \<union> {pid})"
    by auto
  from block_Inr[OF 2[unfolded L]] m1 have
    c2: "2 \<le> conv_out h 4 2 1" "2 \<le> conv_out w 4 2 1" and
    m2: "meta h2 [n, 128, conv_out (conv_out h 4 2 1) 4 2 1, conv_out (conv_out w 4 2 1) 4 2 1] d
           (grad_src x \<union> {pid} \<union> {pid + 1} \<union> {pid + 2})"
    by (auto simp: meta_def)
  from block_Inr[OF 3[unfolded L]] m2 have
    c3: "2 \<le> conv_out (conv_out h 4 2 1) 4 2 1" "2 \<le> conv_out (conv_out w 4 2 1) 4 2 1"
        "conv_out (conv_out (conv_out h 4 2 1) 4 2 1) 4 2 1 * conv_out (conv_out (conv_out w 4 2 1) 4 2 1) 4 2 1 \<noteq> 1" and
    m3: "meta h3 [n, 256, conv_out (conv_out (conv_out h 4 2 1) 4 2 1) 4 2 1,
                   conv_out (conv_out (conv_out w 4 2 1) 4 2 1) 4 2 1] d
           (grad_src x \<union> {pid} \<union> {pid + 1} \<union> {pid + 2} \<union> {pid + 3} \<union> {pid + 4})"
    by (auto simp: meta_def)
  from block_Inr[OF 4[unfolded L]] m3 have
    m4: "meta h4 [n, 512, conv_out (conv_out (conv_out (conv_out h 4 2 1) 4 2 1) 4 2 1) 4 1 2,
                   conv_out (conv_out (conv_out (conv_out w 4 2 1) 4 2 1) 4 2 1) 4 1 2] d
           (grad_src x \<union> {pid} \<union> {pid + 1} \<union> {pid + 2} \<union> {pid + 3} \<union> {pid + 4} \<union> {pid + 5} \<union> {pid + 6})"
    by (auto simp: meta_def)
  from conv2d_Inr[OF 5[unfolded L apply_layer.simps]] m4 have
    m5: "meta y [n, 64, conv_out (conv_out (conv_out (conv_out (conv_out h 4 2 1) 4 2 1) 4 2 1) 4 1 2) 4 1 2,
                   conv_out (conv_out (conv_out (conv_out (conv_out w 4 2 1) 4 2 1) 4 2 1) 4 1 2) 4 1 2] d
           (grad_src x \<union> {pid} \<union> {pid + 1} \<union> {pid + 2} \<union> {pid + 3} \<union> {pid + 4} \<union> {pid + 5} \<union> {pid + 6} \<union> {pid + 7})"
    by (auto simp: meta_def)
  have a1: "conv_out h 4 2 1 = h div 2" "conv_out w 4 2 1 = w div 2"
    by (rule conv_out_half[OF x(3)], rule conv_out_half[OF x(4)])
  have c2': "2 \<le> h div 2" "2 \<le> w div 2" using c2 unfolding a1 .
  have a2: "conv_out (h div 2) 4 2 1 = h div 2 div 2" "conv_out (w div 2) 4 2 1 = w div 2 div 2"
    by (rule conv_out_half[OF c2'(1)], rule conv_out_half[OF c2'(2)])
  have c3': "2 \<le> h div 2 div 2" "2 \<le> w div 2 div 2" using c3(1,2) unfolding a1 a2 .
  have a3: "conv_out (h div 2 div 2) 4 2 1 = h div 2 div 2 div 2" "conv_out (w div 2 div 2) 4 2 1 = w div 2 div 2 div 2"
    by (rule conv_out_half[OF c3'(1)], rule conv_out_half[OF c3'(2)])
  have c3'': "h div 2 div 2 div 2 * (w div 2 div 2 div 2) \<noteq> 1" using c3(3) unfolding a1 a2 a3 .
  have d8: "h div 2 div 2 div 2 = h div 8" "w div 2 div 2 div 2 = w div 8"
    by (rule div3_eq_div8)+
  have hw: "8 \<le> h" "8 \<le> w"
    by (rule div4_ge2[OF c3'(1)], rule div4_ge2[OF c3'(2)])
  have big: "16 \<le> h \<or> 16 \<le> w"
  proof (rule ccontr)
    assume n: "\<not> (16 \<le> h \<or> 16 \<le> w)"
    have "h div 8 = 1" "w div 8 = 1" using hw n by (simp_all add: div8_eq1)
    with c3'' d8 show False by simp
  qed
  have "meta y [n, 64, h div 8 + 2, w div 8 + 2] d (grad_src x \<union> {pid..<pid + 8})"
    using m5 unfolding eight_ids a1 a2 a3 d8 conv_out_same by simp
  then show ?thesis using x(1,2) hw big by blast
qed

lemma ge8_div: "8 \<le> (h::nat) \<Longrightarrow> 2 \<le> h \<and> 2 \<le> h div 2 \<and> 2 \<le> h div 2 div 2 \<and> 1 \<le> h div 2 div 2 div 2"
  by (simp add: div_mult2_eq[symmetric]) arith

lemma ge16_div: "16 \<le> (h::nat) \<Longrightarrow> 2 \<le> h div 2 div 2 div 2"
  by (simp add: div_mult2_eq[symmetric])

lemma forward_ok:
  assumes built: "Discriminator init pid ic dv sq ex = Inr (D0, p)"
      and x: "shape x = [n, nat ic, h, w]" "device x = d"
      and hw: "8 \<le> h" "8 \<le> w" "16 \<le> h \<or> 16 \<le> w"
  shows "\<exists>y. forward (to_D d D0) x = Inr y"
proof -
  note L = built_layers[OF built]
  note H = ge8_div[OF hw(1)] and W = ge8_div[OF hw(2)]
  have a1: "conv_out h 4 2 1 = h div 2" "conv_out w 4 2 1 = w div 2"
    using H W by (simp_all add: conv_out_half_Suc)
  have a2: "conv_out (h div 2) 4 2 1 = h div 2 div 2" "conv_out (w div 2) 4 2 1 = w div 2 div 2"
    using H W by (simp_all add: conv_out_half_Suc)
  have a3: "conv_out (h div 2 div 2) 4 2 1 = h div 2 div 2 div 2" "conv_out (w div 2 div 2) 4 2 1 = w div 2 div 2 div 2"
    using H W by (simp_all add: conv_out_half_Suc)
  have n1: "h div 2 div 2 div 2 * (w div 2 div 2 div 2) \<noteq> 1"
    using hw(3) ge16_div[of h] ge16_div[of w] by auto
  have n2: "h div 2 div 2 * (w div 2 div 2) \<noteq> 1" using H W by auto
  have "\<exists>y. conv2d (nat ic) 64 4 2 1 (to d (new_param init pid [64, nat ic, 4, 4])) None x = Inr y"
    by (rule conv2d_ok[OF x(1)]) (use x(2) H W in simp_all)
  then obtain c1 where c1: "conv2d (nat ic) 64 4 2 1 (to d (new_param init pid [64, nat ic, 4, 4])) None x = Inr c1"
    by blast
  define h1 where "h1 = map_t (\<lambda>v. max 0 v + (2 / 10) * min 0 v) c1"
  have s1: "Sequential (layer_1 (to_D d D0)) x = Inr h1" unfolding L using c1 by (simp add: h1_def)
  have m1: "shape h1 = [n, 64, h div 2, w div 2]" "device h1 = d"
    using conv2d_Inr[OF c1] x by (auto simp: meta_def h1_def a1 conv_out_half_Suc)
  have "\<exists>y. Sequential (layer_2 (to_D d D0)) h1 = Inr y"
    unfolding L by (rule block_ok[OF m1(1)]) (use m1(2) H W n2 in \<open>simp_all add: conv_out_half_Suc\<close>)
  then obtain h2 where s2: "Sequential (layer_2 (to_D d D0)) h1 = Inr h2" by blast
  have m2: "shape h2 = [n, 128, h div 2 div 2, w div 2 div 2]" "device h2 = d"
    using block_Inr[OF s2[unfolded L]] m1 by (auto simp: meta_def a2 conv_out_half_Suc)
  have "\<exists>y. Sequential (layer_3 (to_D d D0)) h2 = Inr y"
    unfolding L by (rule block_ok[OF m2(1)]) (use m2(2) H W n1 in \<open>simp_all add: conv_out_half_Suc\<close>)
  then obtain h3 where s3: "Sequential (layer_3 (to_D d D0)) h2 = Inr h3" by blast
  have m3: "shape h3 = [n, 256, h div 2 div 2 div 2, w div 2 div 2 div 2]" "device h3 = d"
    using block_Inr[OF s3[unfolded L]] m2 by (auto simp: meta_def a3 conv_out_half_Suc)
  have "\<exists>y. Sequential (layer_4 (to_D d D0)) h3 = Inr y"
    unfolding L by (rule block_ok[OF m3(1)]) (use m3(2) H W in \<open>simp_all add: conv_out_def\<close>)
  then obtain h4 where s4: "Sequential (layer_4 (to_D d D0)) h3 = Inr h4" by blast
  have m4: "shape h4 = [n, 512, h div 2 div 2 div 2 + 1, w div 2 div 2 div 2 + 1]" "device h4 = d"
    using block_Inr[OF s4[unfolded L]] m3 by (auto simp: meta_def conv_out_def)
  have "\<exists>y. apply_layer (last_conv (to_D d D0)) h4 = Inr y"
    unfolding L apply_layer.simps by (rule conv2d_ok[OF m4(1)]) (use m4(2) in simp_all)
  then obtain y where s5: "apply_layer (last_conv (to_D d D0)) h4 = Inr y" by blast
  show ?thesis using s1 s2 s3 s4 s5 by (auto simp: forward_def clone_def ConvNormAct_forward_def)
qed

subsection \<open>Construction\<close>

lemma shape_zeros [simp]: "shape (zeros s d) = s" by (simp add: zeros_def)
lemma device_zeros [simp]: "device (zeros s d) = d" by (simp add: zeros_def)
lemma grad_src_zeros [simp]: "grad_src (zeros s d) = {}" by (simp add: zeros_def)
lemma wf_zeros [simp]: "wf_tensor (zeros s d)" by (simp add: zeros_def wf_tensor_def)

lemma seq_len_of_eq:
  "seq_len_of cfg = (if extrap cfg then sample_size cfg div 2 + 1
                     else if irregular cfg then sample_size cfg else sample_size cfg div 2)"
  by (simp add: seq_len_of_def Let_def)

lemma parameters_nonempty:
  "Discriminator init pid ic dv sq ex = Inr (D, p) \<Longrightarrow> parameters (to_D d D) \<noteq> []"
  by (auto simp: Discriminator_def Conv2d_new_def ConvNormAct_def parameters_def to_D_def Let_def split: if_splits)

lemma Discriminator_ok: "0 \<le> ic \<Longrightarrow> \<exists>D p. Discriminator init pid ic dv sq ex = Inr (D, p)"
  by (simp add: Discriminator_def Conv2d_new_def ConvNormAct_def Let_def)

lemma Discriminator_fields:
  assumes "Discriminator init pid ic dv sq ex = Inr (D, p)"
  shows "0 \<le> ic \<and> in_channels (to_D d D) = nat ic \<and> seq (to_D d D) = sq
           \<and> is_extrap (to_D d D) = ex \<and> self_device (to_D d D) = dv"
  using built_layers[OF assms] by (simp add: in_channels_def)

lemma conv_stack:
  assumes "8 \<le> h"
  shows "conv_out (conv_out (conv_out (conv_out (conv_out h 4 2 1) 4 2 1) 4 2 1) 4 1 2) 4 1 2 = h div 8 + 2"
proof -
  note H = ge8_div[OF assms]
  have 1: "conv_out h 4 2 1 = h div 2" using H by (simp add: conv_out_half_Suc)
  have 2: "conv_out (h div 2) 4 2 1 = h div 2 div 2" using H by (simp add: conv_out_half_Suc)
  have 3: "conv_out (h div 2 div 2) 4 2 1 = h div 2 div 2 div 2" using H by (simp add: conv_out_half_Suc)
  show ?thesis unfolding 1 2 3 conv_out_same div3_eq_div8 by simp
qed

subsection \<open>Windows, stacked and viewed\<close>

lemma collect_map:
  "(\<And>i. i \<in> set js \<Longrightarrow> body i = Inr (W i)) \<Longrightarrow> collect body js acc = Inr (acc @ map W js)"
  by (induction js arbitrary: acc) simp_all

lemma cat_get_dim0:
  "(\<And>x. x \<in> set ws \<Longrightarrow> shape x ! 0 = b) \<Longrightarrow> i < length ws \<Longrightarrow> bb < b
     \<Longrightarrow> cat_get ws 0 ((i * b + bb) # r) = tget (ws ! i) (bb # r)"
proof (induction ws arbitrary: i)
  case Nil
  then show ?case by simp
next
  case (Cons x ws)
  show ?case
  proof (cases i)
    case 0
    then show ?thesis using Cons.prems by simp
  next
    case (Suc k)
    have "cat_get ws 0 ((k * b + bb) # r) = tget (ws ! k) (bb # r)"
      using Cons.prems Suc by (intro Cons.IH) auto
    then show ?thesis using Cons.prems Suc by simp
  qed
qed

lemma sum_list_const: "(\<And>x. x \<in> set xs \<Longrightarrow> f x = (c::nat)) \<Longrightarrow> sum_list (map f xs) = length xs * c"
  by (induction xs) simp_all

lemma cat0_same_shape:
  assumes ws: "ws \<noteq> []" and sh: "\<And>x. x \<in> set ws \<Longrightarrow> shape x = b # s" and dv: "\<And>x. x \<in> set ws \<Longrightarrow> device x = d"
  shows "cat ws 0 = Inr (mk ((length ws * b) # s) (cat_get ws 0) d (\<Union> (grad_src ` set ws)))"
proof -
  obtain x ys where xs: "ws = x # ys" using ws by (cases ws) auto
  have c: "list_all (cat_compatible 0 x) ys"
    using sh dv xs by (auto simp: list_all_iff cat_compatible_def)
  have sm: "sum_list (map (\<lambda>y. shape y ! 0) ws) = length ws * b"
    by (rule sum_list_const) (simp add: sh)
  have sx: "shape x = b # s" "device x = d" using sh dv xs by auto
  show ?thesis using c sm sx unfolding cat_def xs by simp
qed

lemma view_batch:
  assumes "shape x = [n, m, c, h, w]" "n = b * t" "0 < n" "0 < h" "0 < w"
  shows "view x [Some (b * t), None, Some h, Some w] = Inr (x\<lparr>shape := [b * t, m * c, h, w]\<rparr>)"
proof -
  have "n * m * c * h * w = (m * c) * (n * h * w)" by (simp add: algebra_simps)
  then have "(n * (m * (c * (h * w)))) mod (n * (h * w)) = 0" "(n * (m * (c * (h * w)))) div (n * (h * w)) = m * c"
    using assms by (simp_all add: mult.assoc)
  then show ?thesis using assms by (simp add: view_def Let_def)
qed

lemma tget_view5:
  "cc < c \<Longrightarrow> tget (x\<lparr>shape := [n, m * c, h, w]\<rparr>) [k, f * c + cc, y, xx]
     = data x ! ravel [n, m, c, h, w] [k, f, cc, y, xx]"
  by (simp add: tget_def algebra_simps)

lemma stack_windows:
  assumes W: "\<And>i. i < t \<Longrightarrow> body i = Inr (W i)"
      and sh: "\<And>i. i < t \<Longrightarrow> shape (W i) = [b, m, c, h, w]"
      and dv: "\<And>i. i < t \<Longrightarrow> device (W i) = d"
      and pos: "0 < t" "0 < b" "0 < h" "0 < w"
  shows "\<exists>out. (\<forall>K. bind_r (collect body [0..<t] []) (\<lambda>seqs.
                     bind_r (cat seqs 0) (\<lambda>fs.
                     bind_r (view fs [Some (b * t), None, Some h, Some w]) K)) = K out)
           \<and> meta out [b * t, m * c, h, w] d (\<Union>i<t. grad_src (W i))
           \<and> (\<forall>i<t. \<forall>bb<b. \<forall>f<m. \<forall>cc<c. \<forall>y<h. \<forall>x<w.
                 tget out [i * b + bb, f * c + cc, y, x] = tget (W i) [bb, f, cc, y, x])"
proof -
  let ?ws = "map W [0..<t]"
  let ?g = "\<Union> (grad_src ` set ?ws)"
  let ?fs = "mk [length ?ws * b, m, c, h, w] (cat_get ?ws 0) d ?g"
  let ?out = "?fs\<lparr>shape := [b * t, m * c, h, w]\<rparr>"
  have 1: "collect body [0..<t] [] = Inr ?ws" using collect_map[of "[0..<t]" body W "[]"] W by simp
  have ne: "?ws \<noteq> []" using pos(1) by simp
  have 2: "cat ?ws 0 = Inr ?fs"
    by (rule cat0_same_shape[OF ne]) (auto simp: sh dv)
  have 3: "view ?fs [Some (b * t), None, Some h, Some w] = Inr ?out"
    by (rule view_batch[where n = "length ?ws * b"]) (use pos in \<open>simp_all add: mult.commute\<close>)
  have g: "?g = (\<Union>i<t. grad_src (W i))" by auto
  have K: "\<forall>K. bind_r (collect body [0..<t] []) (\<lambda>seqs.
                     bind_r (cat seqs 0) (\<lambda>fs.
                     bind_r (view fs [Some (b * t), None, Some h, Some w]) K)) = K ?out"
    by (simp only: 1 2 3 bind_r_Inr) simp
  have m: "meta ?out [b * t, m * c, h, w] d (\<Union>i<t. grad_src (W i))"
    using g by (simp add: meta_def wf_tensor_def mult.commute mult.left_commute)
  have el: "\<forall>i<t. \<forall>bb<b. \<forall>f<m. \<forall>cc<c. \<forall>y<h. \<forall>x<w.
                 tget ?out [i * b + bb, f * c + cc, y, x] = tget (W i) [bb, f, cc, y, x]"
  proof (intro allI impI)
    fix i bb f cc y x
    assume i: "i < t" and bb: "bb < b" and f: "f < m" and cc: "cc < c" and y: "y < h" and x: "x < w"
    have "i * b + bb < t * b"
    proof -
      have "i * b + bb < i * b + b" using bb by simp
      also have "\<dots> = Suc i * b" by simp
      also have "\<dots> \<le> t * b" using i by (intro mult_le_mono1) simp
      finally show ?thesis .
    qed
    then have v: "valid_idx [length ?ws * b, m, c, h, w] [i * b + bb, f, cc, y, x]"
      using f cc y x by simp
    have "tget ?out [i * b + bb, f * c + cc, y, x]
            = data ?fs ! ravel [b * t, m, c, h, w] [i * b + bb, f, cc, y, x]"
      by (rule tget_view5[OF cc])
    also have "\<dots> = tget ?fs [i * b + bb, f, cc, y, x]"
      by (simp add: tget_def)
    also have "\<dots> = cat_get ?ws 0 [i * b + bb, f, cc, y, x]"
      by (rule tget_mk[OF v])
    also have "\<dots> = tget (?ws ! i) [bb, f, cc, y, x]"
      by (rule cat_get_dim0) (use i bb in \<open>auto simp: sh\<close>)
    also have "\<dots> = tget (W i) [bb, f, cc, y, x]" using i by simp
    finally show "tget ?out [i * b + bb, f * c + cc, y, x] = tget (W i) [bb, f, cc, y, x]" .
  qed
  from K m el show ?thesis by blast
qed

lemma seq_window_ok:
  assumes inp: "shape inp = [b, tin, c, h, w]" and x: "shape x = [b, tx, c, h, w]"
      and dv: "device inp = device x" and i: "i < tx" "i \<le> tin"
  shows "\<exists>wd. seq_window inp x i = Inr wd
           \<and> meta wd [b, (tin - i) + (i + 1), c, h, w] (device x) (grad_src inp \<union> grad_src x)
           \<and> (\<forall>bb<b. \<forall>f<tin + 1. \<forall>cc<c. \<forall>y<h. \<forall>xx<w.
                 tget wd [bb, f, cc, y, xx] =
                   (if f < tin - i then tget inp [bb, i + f, cc, y, xx]
                    else tget x [bb, f - (tin - i), cc, y, xx]))"
proof -
  let ?a = "mk [b, tin - i, c, h, w] (\<lambda>idx. tget inp (idx[1 := idx ! 1 + i])) (device inp) (grad_src inp)"
  let ?b = "mk [b, i + 1, c, h, w] (\<lambda>idx. tget x idx) (device x) (grad_src x)"
  let ?wd = "mk [b, (tin - i) + (i + 1), c, h, w] (cat_get [?a, ?b] 1) (device x) (grad_src inp \<union> grad_src x)"
  have mn: "min (i + 1) tx = i + 1" using i by simp
  have 1: "slice_from inp i = Inr ?a" by (simp add: slice_from_def inp)
  have 2: "slice_to x (i + 1) = Inr ?b" using mn by (simp add: slice_to_def x)
  have 3: "cat [?a, ?b] 1 = Inr ?wd"
    by (simp add: cat_def cat_compatible_def dv)
  have w: "seq_window inp x i = Inr ?wd"
    by (simp only: seq_window_def 1 2 3 bind_r_Inr clone_def)
  have el: "\<forall>bb<b. \<forall>f<tin + 1. \<forall>cc<c. \<forall>y<h. \<forall>xx<w.
                 tget ?wd [bb, f, cc, y, xx] =
                   (if f < tin - i then tget inp [bb, i + f, cc, y, xx]
                    else tget x [bb, f - (tin - i), cc, y, xx])"
  proof (intro allI impI)
    fix bb f cc y xx
    assume r: "bb < b" "f < tin + 1" "cc < c" "y < h" "xx < w"
    have v: "valid_idx [b, (tin - i) + (i + 1), c, h, w] [bb, f, cc, y, xx]" using r i by simp
    have "tget ?wd [bb, f, cc, y, xx] = cat_get [?a, ?b] 1 [bb, f, cc, y, xx]"
      by (rule tget_mk[OF v])
    also have "\<dots> = (if f < tin - i then tget inp [bb, i + f, cc, y, xx]
                    else tget x [bb, f - (tin - i), cc, y, xx])"
    proof (cases "f < tin - i")
      case True
      have va: "valid_idx [b, tin - i, c, h, w] [bb, f, cc, y, xx]" using r True by simp
      show ?thesis using True tget_mk[OF va] by (simp add: add.commute)
    next
      case False
      have lt: "f - (tin - i) < i + 1" using r i False by arith
      then have vb: "valid_idx [b, i + 1, c, h, w] [bb, f - (tin - i), cc, y, xx]" using r by simp
      show ?thesis using False lt tget_mk[OF vb] by simp
    qed
    finally show "tget ?wd [bb, f, cc, y, xx] =
                   (if f < tin - i then tget inp [bb, i + f, cc, y, xx]
                    else tget x [bb, f - (tin - i), cc, y, xx])" .
  qed
  have m: "meta ?wd [b, (tin - i) + (i + 1), c, h, w] (device x) (grad_src inp \<union> grad_src x)"
    by simp
  from w m el show ?thesis by blast
qed

lemma seq_half:
  assumes x: "shape x = [b, t, c, h, w]" and inp: "shape inp = [b, tin, c, h, w]"
      and dv: "device inp = device x" and pos: "0 < t" "t \<le> tin + 1" "0 < b" "0 < h" "0 < w"
  shows "\<exists>out. (\<forall>K :: tensor \<Rightarrow> error + 'r. bind_r (collect (seq_window inp x) [0..<t] []) (\<lambda>seqs.
                     bind_r (cat seqs 0) (\<lambda>fs.
                     bind_r (view fs [Some (b * t), None, Some h, Some w]) K)) = K out)
           \<and> meta out [b * t, (tin + 1) * c, h, w] (device x) (grad_src inp \<union> grad_src x)
           \<and> (\<forall>i<t. \<forall>bb<b. \<forall>f<tin + 1. \<forall>cc<c. \<forall>y<h. \<forall>xx<w.
                 tget out [i * b + bb, f * c + cc, y, xx] =
                   (if f < tin - i then tget inp [bb, i + f, cc, y, xx]
                    else tget x [bb, f - (tin - i), cc, y, xx]))"
proof -
  let ?P = "\<lambda>i wd. seq_window inp x i = Inr wd
           \<and> meta wd [b, (tin - i) + (i + 1), c, h, w] (device x) (grad_src inp \<union> grad_src x)
           \<and> (\<forall>bb<b. \<forall>f<tin + 1. \<forall>cc<c. \<forall>y<h. \<forall>xx<w.
                 tget wd [bb, f, cc, y, xx] =
                   (if f < tin - i then tget inp [bb, i + f, cc, y, xx]
                    else tget x [bb, f - (tin - i), cc, y, xx]))"
  have "\<forall>i. \<exists>wd. i < t \<longrightarrow> ?P i wd"
  proof
    fix i
    show "\<exists>wd. i < t \<longrightarrow> ?P i wd"
    proof (cases "i < t")
      case True
      then have "i \<le> tin" using pos(2) by simp
      from seq_window_ok[OF inp x dv True this] show ?thesis by blast
    next
      case False
      then show ?thesis by simp
    qed
  qed
  from choice[OF this] obtain W where W: "\<forall>i. i < t \<longrightarrow> ?P i (W i)" ..
  have b1: "\<And>i. i < t \<Longrightarrow> seq_window inp x i = Inr (W i)" using W by blast
  have b2: "\<And>i. i < t \<Longrightarrow> shape (W i) = [b, tin + 1, c, h, w]"
  proof -
    fix i assume i: "i < t"
    then have "i \<le> tin" using pos(2) by simp
    then have "(tin - i) + (i + 1) = tin + 1" by simp
    with W i show "shape (W i) = [b, tin + 1, c, h, w]" by (simp add: meta_def)
  qed
  have b3: "\<And>i. i < t \<Longrightarrow> device (W i) = device x" using W by (simp add: meta_def)
  have g: "\<And>i. i < t \<Longrightarrow> grad_src (W i) = grad_src inp \<union> grad_src x" using W by (simp add: meta_def)
  from stack_windows[of t "seq_window inp x" W b "tin + 1" c h w "device x", OF b1 b2 b3 pos(1) pos(3-5)]
  obtain out where
    K: "\<forall>K :: tensor \<Rightarrow> error + 'r. bind_r (collect (seq_window inp x) [0..<t] []) (\<lambda>seqs.
                     bind_r (cat seqs 0) (\<lambda>fs.
                     bind_r (view fs [Some (b * t), None, Some h, Some w]) K)) = K out" and
    m: "meta out [b * t, (tin + 1) * c, h, w] (device x) (\<Union>i<t. grad_src (W i))" and
    el: "\<forall>i<t. \<forall>bb<b. \<forall>f<tin + 1. \<forall>cc<c. \<forall>y<h. \<forall>xx<w.
                 tget out [i * b + bb, f * c + cc, y, xx] = tget (W i) [bb, f, cc, y, xx]"
    by blast
  have "(\<Union>i<t. grad_src (W i)) = grad_src inp \<union> grad_src x" using g pos(1) by auto
  with m have m': "meta out [b * t, (tin + 1) * c, h, w] (device x) (grad_src inp \<union> grad_src x)" by simp
  have el': "\<forall>i<t. \<forall>bb<b. \<forall>f<tin + 1. \<forall>cc<c. \<forall>y<h. \<forall>xx<w.
                 tget out [i * b + bb, f * c + cc, y, xx] =
                   (if f < tin - i then tget inp [bb, i + f, cc, y, xx]
                    else tget x [bb, f - (tin - i), cc, y, xx])"
    using el W by simp
  from K m' el' show ?thesis by blast
qed

lemma size5_5 [simp]: "shape x = [b, t, c, h, w] \<Longrightarrow> size5 x = Inr (b, t, c, h, w)"
  by (simp add: size5_def)

lemma rearrange_seq_fake_only:
  assumes fk: "shape fake = [b, t, c, h, w]" and inp: "shape inp = [b, tin, c, h, w]"
      and dv: "device inp = device fake" and pos: "0 < t" "t \<le> tin + 1" "0 < b" "0 < h" "0 < w"
  shows "\<exists>out. rearrange_seq r fake inp True = Inr (FakeOnly out)
           \<and> meta out [b * t, (tin + 1) * c, h, w] (device fake) (grad_src inp \<union> grad_src fake)
           \<and> (\<forall>i<t. \<forall>bb<b. \<forall>f<tin + 1. \<forall>cc<c. \<forall>y<h. \<forall>xx<w.
                 tget out [i * b + bb, f * c + cc, y, xx] =
                   (if f < tin - i then tget inp [bb, i + f, cc, y, xx]
                    else tget fake [bb, f - (tin - i), cc, y, xx]))"
proof -
  from seq_half[OF fk inp dv pos, where 'r = seqs] obtain out where
    K: "\<forall>K :: tensor \<Rightarrow> error + seqs. bind_r (collect (seq_window inp fake) [0..<t] []) (\<lambda>seqs.
                     bind_r (cat seqs 0) (\<lambda>fs.
                     bind_r (view fs [Some (b * t), None, Some h, Some w]) K)) = K out" and
    m: "meta out [b * t, (tin + 1) * c, h, w] (device fake) (grad_src inp \<union> grad_src fake)" and
    el: "\<forall>i<t. \<forall>bb<b. \<forall>f<tin + 1. \<forall>cc<c. \<forall>y<h. \<forall>xx<w.
                 tget out [i * b + bb, f * c + cc, y, xx] =
                   (if f < tin - i then tget inp [bb, i + f, cc, y, xx]
                    else tget fake [bb, f - (tin - i), cc, y, xx])"
    by blast
  have "rearrange_seq r fake inp True = Inr (FakeOnly out)"
    unfolding rearrange_seq_def by (simp add: fk K clone_def)
  with m el show ?thesis by blast
qed

lemma rearrange_seq_real_fake:
  assumes fk: "shape fake = [b, t, c, h, w]" and rl: "shape rl = [b, t, c, h, w]"
      and inp: "shape inp = [b, tin, c, h, w]"
      and dv: "device inp = device fake" "device rl = device fake"
      and pos: "0 < t" "t \<le> tin + 1" "0 < b" "0 < h" "0 < w"
  shows "\<exists>ro fo. rearrange_seq (Some rl) fake inp False = Inr (RealFake ro fo)
           \<and> meta ro [b * t, (tin + 1) * c, h, w] (device fake) (grad_src inp \<union> grad_src rl)
           \<and> meta fo [b * t, (tin + 1) * c, h, w] (device fake) (grad_src inp \<union> grad_src fake)
           \<and> (\<forall>i<t. \<forall>bb<b. \<forall>f<tin + 1. \<forall>cc<c. \<forall>y<h. \<forall>xx<w.
                 tget ro [i * b + bb, f * c + cc, y, xx] =
                   (if f < tin - i then tget inp [bb, i + f, cc, y, xx]
                    else tget rl [bb, f - (tin - i), cc, y, xx])
               \<and> tget fo [i * b + bb, f * c + cc, y, xx] =
                   (if f < tin - i then tget inp [bb, i + f, cc, y, xx]
                    else tget fake [bb, f - (tin - i), cc, y, xx]))"
proof -
  from seq_half[OF fk inp dv(1) pos, where 'r = seqs] obtain fo where
    Kf: "\<forall>K :: tensor \<Rightarrow> error + seqs. bind_r (collect (seq_window inp fake) [0..<t] []) (\<lambda>seqs.
                     bind_r (cat seqs 0) (\<lambda>fs.
                     bind_r (view fs [Some (b * t), None, Some h, Some w]) K)) = K fo" and
    mf: "meta fo [b * t, (tin + 1) * c, h, w] (device fake) (grad_src inp \<union> grad_src fake)" and
    ef: "\<forall>i<t. \<forall>bb<b. \<forall>f<tin + 1. \<forall>cc<c. \<forall>y<h. \<forall>xx<w.
                 tget fo [i * b + bb, f * c + cc, y, xx] =
                   (if f < tin - i then tget inp [bb, i + f, cc, y, xx]
                    else tget fake [bb, f - (tin - i), cc, y, xx])"
    by blast
  have dr: "device inp = device rl" using dv by simp
  from seq_half[OF rl inp dr pos, where 'r = seqs] obtain ro where
    Kr: "\<forall>K :: tensor \<Rightarrow> error + seqs. bind_r (collect (seq_window inp rl) [0..<t] []) (\<lambda>seqs.
                     bind_r (cat seqs 0) (\<lambda>fs.
                     bind_r (view fs [Some (b * t), None, Some h, Some w]) K)) = K ro" and
    mr: "meta ro [b * t, (tin + 1) * c, h, w] (device rl) (grad_src inp \<union> grad_src rl)" and
    er: "\<forall>i<t. \<forall>bb<b. \<forall>f<tin + 1. \<forall>cc<c. \<forall>y<h. \<forall>xx<w.
                 tget ro [i * b + bb, f * c + cc, y, xx] =
                   (if f < tin - i then tget inp [bb, i + f, cc, y, xx]
                    else tget rl [bb, f - (tin - i), cc, y, xx])"
    by blast
  have "rearrange_seq (Some rl) fake inp False = Inr (RealFake ro fo)"
    unfolding rearrange_seq_def by (simp add: fk Kf Kr clone_def)
  with mf mr ef er dv show ?thesis by auto
qed

subsection \<open>The interpolation window\<close>

lemma broadcast_mask: "broadcast_shapes [1, t, 1, 1, 1] [b, t, c, h, w] = Some [b, t, c, h, w]"
  by (auto simp: broadcast_shapes_def)

lemma broadcast_same5: "broadcast_shapes [b, t, c, h, w] [b, t, c, h, w] = Some [b, t, c, h, w]"
  by (simp add: broadcast_shapes_def)

lemma bidx_valid: "valid_idx s idx \<Longrightarrow> bidx s idx = idx"
proof -
  assume v: "valid_idx s idx"
  then have l: "length idx = length s" by (simp add: valid_idx_def list_all2_lengthD)
  have "map2 (\<lambda>d i. if d = 1 then 0 else i) s idx = idx"
  proof (rule nth_equalityI)
    show "length (map2 (\<lambda>d i. if d = 1 then 0 else i) s idx) = length idx" using l by simp
  next
    fix k assume "k < length (map2 (\<lambda>d i. if d = 1 then 0 else i) s idx)"
    then have k: "k < length idx" "k < length s" using l by simp_all
    have "idx ! k < s ! k" using v k by (simp add: valid_idx_def list_all2_nthD)
    then show "map2 (\<lambda>d i. if d = 1 then 0 else i) s idx ! k = idx ! k" using k by auto
  qed
  then show ?thesis using l by (simp add: bidx_def)
qed

lemma bidx_mask: "j < t \<Longrightarrow> bidx [1, t, 1, 1, 1] [bb, j, cc, y, xx] = [0, j, 0, 0, 0]"
  by (auto simp: bidx_def)

lemma tget_eye: "i < t \<Longrightarrow> j < t \<Longrightarrow> tget (eye t) [i, j] = (if i = j then 1 else 0)"
proof -
  assume "i < t" "j < t"
  then have "valid_idx [t, t] [i, j]" by simp
  from tget_mk[OF this] show ?thesis by (simp add: eye_def)
qed

lemma mask_row:
  assumes i: "i < t"
  shows "\<exists>m. bind_r (select0 (clone (cuda (eye t))) i) (\<lambda>row. view row [Some 1, None, Some 1, Some 1, Some 1]) = Inr m
           \<and> meta m [1, t, 1, 1, 1] CUDA {}
           \<and> (\<forall>j<t. tget m [0, j, 0, 0, 0] = (if j = i then 1 else 0))"
proof -
  let ?mask = "clone (cuda (eye t))"
  let ?row = "mk [t] (\<lambda>idx. tget ?mask (i # idx)) CUDA {}"
  let ?m = "?row\<lparr>shape := [1, t, 1, 1, 1]\<rparr>"
  have sm: "shape ?mask = [t, t]" "device ?mask = CUDA" "grad_src ?mask = {}"
    by (simp_all add: clone_def cuda_def eye_def)
  have 1: "select0 ?mask i = Inr ?row" using i by (simp add: select0_def sm)
  have 2: "view ?row [Some 1, None, Some 1, Some 1, Some 1] = Inr ?m"
    by (simp add: view_def Let_def)
  have m: "meta ?m [1, t, 1, 1, 1] CUDA {}" by (simp add: meta_def wf_tensor_def)
  have el: "\<forall>j<t. tget ?m [0, j, 0, 0, 0] = (if j = i then 1 else 0)"
  proof (intro allI impI)
    fix j assume j: "j < t"
    have "tget ?m [0, j, 0, 0, 0] = tget ?row [j]" by (simp add: tget_def)
    also have "\<dots> = tget ?mask [i, j]" using j by (simp add: tget_mk)
    also have "\<dots> = tget (eye t) [i, j]" by (simp add: tget_def clone_def cuda_def to_def)
    also have "\<dots> = (if j = i then 1 else 0)" using tget_eye[OF i j] by auto
    finally show "tget ?m [0, j, 0, 0, 0] = (if j = i then 1 else 0)" .
  qed
  have "bind_r (select0 ?mask i) (\<lambda>row. view row [Some 1, None, Some 1, Some 1, Some 1]) = Inr ?m"
    by (simp only: 1 2 bind_r_Inr)
  with m el show ?thesis by blast
qed

lemma tget_map_t: "ravel (shape x) idx < length (data x) \<Longrightarrow> tget (map_t f x) idx = f (tget x idx)"
  by (simp add: tget_def)

lemma interp_window_ok:
  assumes inp: "shape inp = [b, t, c, h, w]" and x: "shape x = [b, t, c, h, w]"
      and dv: "device inp = CUDA" "device x = CUDA" and i: "i < t"
  shows "\<exists>wd. interp_window (clone (cuda (eye t))) inp x i = Inr wd
           \<and> meta wd [b, t, c, h, w] CUDA (grad_src inp \<union> grad_src x)
           \<and> (\<forall>bb<b. \<forall>j<t. \<forall>cc<c. \<forall>y<h. \<forall>xx<w.
                 tget wd [bb, j, cc, y, xx] =
                   (if j = i then tget x [bb, j, cc, y, xx] else tget inp [bb, j, cc, y, xx]))"
proof -
  from mask_row[OF i] obtain m where
    r: "bind_r (select0 (clone (cuda (eye t))) i) (\<lambda>row. view row [Some 1, None, Some 1, Some 1, Some 1]) = Inr m" and
    mm: "meta m [1, t, 1, 1, 1] CUDA {}" and
    me: "\<forall>j<t. tget m [0, j, 0, 0, 0] = (if j = i then 1 else 0)"
    by blast
  from r obtain row where r1: "select0 (clone (cuda (eye t))) i = Inr row"
    and r2: "view row [Some 1, None, Some 1, Some 1, Some 1] = Inr m"
    by (auto simp: bind_r_eq_Inr)
  have ms: "shape m = [1, t, 1, 1, 1]" "device m = CUDA" "grad_src m = {}" "length (data m) = t"
    using mm by (simp_all add: meta_def wf_tensor_def)
  let ?s = "[b, t, c, h, w]"
  let ?keep = "mk ?s (\<lambda>idx. tget (rsub 1 m) (bidx [1, t, 1, 1, 1] idx) * tget inp (bidx ?s idx)) CUDA (grad_src inp)"
  let ?put = "mk ?s (\<lambda>idx. tget m (bidx [1, t, 1, 1, 1] idx) * tget x (bidx ?s idx)) CUDA (grad_src x)"
  let ?wd = "mk ?s (\<lambda>idx. tget ?keep (bidx ?s idx) + tget ?put (bidx ?s idx)) CUDA (grad_src inp \<union> grad_src x)"
  have 3: "mul (rsub 1 m) (clone inp) = Inr ?keep"
    by (simp add: mul_def binop_def rsub_def ms inp dv clone_def broadcast_mask broadcast_mask[unfolded One_nat_def])
  have 4: "mul m (clone x) = Inr ?put"
    by (simp add: mul_def binop_def ms x dv clone_def broadcast_mask broadcast_mask[unfolded One_nat_def])
  have 5: "add ?keep ?put = Inr ?wd"
    by (simp add: add_def binop_def broadcast_same5)
  have w: "interp_window (clone (cuda (eye t))) inp x i = Inr ?wd"
    unfolding interp_window_def clone_def Let_def
    by (simp only: r1[unfolded clone_def] r2 3[unfolded clone_def] 4[unfolded clone_def] 5 bind_r_Inr)
  have el: "\<forall>bb<b. \<forall>j<t. \<forall>cc<c. \<forall>y<h. \<forall>xx<w.
                 tget ?wd [bb, j, cc, y, xx] =
                   (if j = i then tget x [bb, j, cc, y, xx] else tget inp [bb, j, cc, y, xx])"
  proof (intro allI impI)
    fix bb j cc y xx
    assume a: "bb < b" "j < t" "cc < c" "y < h" "xx < w"
    then have v: "valid_idx ?s [bb, j, cc, y, xx]" by simp
    note bv = bidx_valid[OF v] and bm = bidx_mask[OF a(2), of bb cc y xx]
    have d: "tget m [0, j, 0, 0, 0] = (if j = i then 1 else 0)" using me a(2) by simp
    have "ravel (shape m) [0, j, 0, 0, 0] < length (data m)" using a(2) ms by simp
    then have rs: "tget (rsub 1 m) [0, j, 0, 0, 0] = 1 - tget m [0, j, 0, 0, 0]"
      unfolding rsub_def by (rule tget_map_t)
    have k: "tget ?keep [bb, j, cc, y, xx] = (1 - tget m [0, j, 0, 0, 0]) * tget inp [bb, j, cc, y, xx]"
      by (simp only: tget_mk[OF v] bv bm rs)
    have p: "tget ?put [bb, j, cc, y, xx] = tget m [0, j, 0, 0, 0] * tget x [bb, j, cc, y, xx]"
      by (simp only: tget_mk[OF v] bv bm)
    have "tget ?wd [bb, j, cc, y, xx] = tget ?keep [bb, j, cc, y, xx] + tget ?put [bb, j, cc, y, xx]"
      by (simp only: tget_mk[OF v] bv)
    also have "\<dots> = (if j = i then tget x [bb, j, cc, y, xx] else tget inp [bb, j, cc, y, xx])"
      unfolding k p d by simp
    finally show "tget ?wd [bb, j, cc, y, xx] =
                   (if j = i then tget x [bb, j, cc, y, xx] else tget inp [bb, j, cc, y, xx])" .
  qed
  have m: "meta ?wd [b, t, c, h, w] CUDA (grad_src inp \<union> grad_src x)" by simp
  from w m el show ?thesis by blast
qed

lemma interp_half:
  assumes x: "shape x = [b, t, c, h, w]" and inp: "shape inp = [b, t, c, h, w]"
      and dv: "device inp = CUDA" "device x = CUDA" and pos: "0 < t" "0 < b" "0 < h" "0 < w"
  shows "\<exists>out. (\<forall>K :: tensor \<Rightarrow> error + 'r.
                  bind_r (collect (interp_window (clone (cuda (eye t))) inp x) [0..<t] []) (\<lambda>seqs.
                     bind_r (cat seqs 0) (\<lambda>fs.
                     bind_r (view fs [Some (b * t), None, Some h, Some w]) K)) = K out)
           \<and> meta out [b * t, t * c, h, w] CUDA (grad_src inp \<union> grad_src x)
           \<and> (\<forall>i<t. \<forall>bb<b. \<forall>j<t. \<forall>cc<c. \<forall>y<h. \<forall>xx<w.
                 tget out [i * b + bb, j * c + cc, y, xx] =
                   (if j = i then tget x [bb, j, cc, y, xx] else tget inp [bb, j, cc, y, xx]))"
proof -
  let ?P = "\<lambda>i wd. interp_window (clone (cuda (eye t))) inp x i = Inr wd
           \<and> meta wd [b, t, c, h, w] CUDA (grad_src inp \<union> grad_src x)
           \<and> (\<forall>bb<b. \<forall>j<t. \<forall>cc<c. \<forall>y<h. \<forall>xx<w.
                 tget wd [bb, j, cc, y, xx] =
                   (if j = i then tget x [bb, j, cc, y, xx] else tget inp [bb, j, cc, y, xx]))"
  have "\<forall>i. \<exists>wd. i < t \<longrightarrow> ?P i wd"
  proof
    fix i
    show "\<exists>wd. i < t \<longrightarrow> ?P i wd"
    proof (cases "i < t")
      case True
      from interp_window_ok[OF inp x dv True] show ?thesis by blast
    next
      case False
      then show ?thesis by simp
    qed
  qed
  from choice[OF this] obtain W where W: "\<forall>i. i < t \<longrightarrow> ?P i (W i)" ..
  have b1: "\<And>i. i < t \<Longrightarrow> interp_window (clone (cuda (eye t))) inp x i = Inr (W i)" using W by blast
  have b2: "\<And>i. i < t \<Longrightarrow> shape (W i) = [b, t, c, h, w]" using W by (simp add: meta_def)
  have b3: "\<And>i. i < t \<Longrightarrow> device (W i) = CUDA" using W by (simp add: meta_def)
  have g: "\<And>i. i < t \<Longrightarrow> grad_src (W i) = grad_src inp \<union> grad_src x" using W by (simp add: meta_def)
  from stack_windows[of t "interp_window (clone (cuda (eye t))) inp x" W b t c h w CUDA, OF b1 b2 b3 pos]
  obtain out where
    K: "\<forall>K :: tensor \<Rightarrow> error + 'r.
          bind_r (collect (interp_window (clone (cuda (eye t))) inp x) [0..<t] []) (\<lambda>seqs.
                     bind_r (cat seqs 0) (\<lambda>fs.
                     bind_r (view fs [Some (b * t), None, Some h, Some w]) K)) = K out" and
    m: "meta out [b * t, t * c, h, w] CUDA (\<Union>i<t. grad_src (W i))" and
    el: "\<forall>i<t. \<forall>bb<b. \<forall>f<t. \<forall>cc<c. \<forall>y<h. \<forall>xx<w.
                 tget out [i * b + bb, f * c + cc, y, xx] = tget (W i) [bb, f, cc, y, xx]"
    by blast
  have "(\<Union>i<t. grad_src (W i)) = grad_src inp \<union> grad_src x" using g pos(1) by auto
  with m have m': "meta out [b * t, t * c, h, w] CUDA (grad_src inp \<union> grad_src x)" by simp
  have el': "\<forall>i<t. \<forall>bb<b. \<forall>j<t. \<forall>cc<c. \<forall>y<h. \<forall>xx<w.
                 tget out [i * b + bb, j * c + cc, y, xx] =
                   (if j = i then tget x [bb, j, cc, y, xx] else tget inp [bb, j, cc, y, xx])"
    using el W by simp
  from K m' el' show ?thesis by blast
qed

lemma rearrange_seq_interp_fake_only:
  assumes fk: "shape fake = [b, t, c, h, w]" and inp: "shape inp = [b, t, c, h, w]"
      and dv: "device inp = CUDA" "device fake = CUDA" and pos: "0 < t" "0 < b" "0 < h" "0 < w"
  shows "\<exists>out. rearrange_seq_interp r fake inp True = Inr (FakeOnly out)
           \<and> meta out [b * t, t * c, h, w] CUDA (grad_src inp \<union> grad_src fake)
           \<and> (\<forall>i<t. \<forall>bb<b. \<forall>j<t. \<forall>cc<c. \<forall>y<h. \<forall>xx<w.
                 tget out [i * b + bb, j * c + cc, y, xx] =
                   (if j = i then tget fake [bb, j, cc, y, xx] else tget inp [bb, j, cc, y, xx]))"
proof -
  from interp_half[OF fk inp dv pos, where 'r = seqs] obtain out where
    K: "\<forall>K :: tensor \<Rightarrow> error + seqs.
          bind_r (collect (interp_window (clone (cuda (eye t))) inp fake) [0..<t] []) (\<lambda>seqs.
                     bind_r (cat seqs 0) (\<lambda>fs.
                     bind_r (view fs [Some (b * t), None, Some h, Some w]) K)) = K out" and
    m: "meta out [b * t, t * c, h, w] CUDA (grad_src inp \<union> grad_src fake)" and
    el: "\<forall>i<t. \<forall>bb<b. \<forall>j<t. \<forall>cc<c. \<forall>y<h. \<forall>xx<w.
                 tget out [i * b + bb, j * c + cc, y, xx] =
                   (if j = i then tget fake [bb, j, cc, y, xx] else tget inp [bb, j, cc, y, xx])"
    by blast
  have "rearrange_seq_interp r fake inp True = Inr (FakeOnly out)"
    unfolding rearrange_seq_interp_def Let_def by (simp add: fk K) (simp add: clone_def)
  with m el show ?thesis by blast
qed

lemma rearrange_seq_interp_real_fake:
  assumes fk: "shape fake = [b, t, c, h, w]" and rl: "shape rl = [b, t, c, h, w]"
      and inp: "shape inp = [b, t, c, h, w]"
      and dv: "device inp = CUDA" "device fake = CUDA" "device rl = CUDA"
      and pos: "0 < t" "0 < b" "0 < h" "0 < w"
  shows "\<exists>ro fo. rearrange_seq_interp (Some rl) fake inp False = Inr (RealFake ro fo)
           \<and> meta ro [b * t, t * c, h, w] CUDA (grad_src inp \<union> grad_src rl)
           \<and> meta fo [b * t, t * c, h, w] CUDA (grad_src inp \<union> grad_src fake)
           \<and> (\<forall>i<t. \<forall>bb<b. \<forall>j<t. \<forall>cc<c. \<forall>y<h. \<forall>xx<w.
                 tget ro [i * b + bb, j * c + cc, y, xx] =
                   (if j = i then tget rl [bb, j, cc, y, xx] else tget inp [bb, j, cc, y, xx])
               \<and> tget fo [i * b + bb, j * c + cc, y, xx] =
                   (if j = i then tget fake [bb, j, cc, y, xx] else tget inp [bb, j, cc, y, xx]))"
proof -
  from interp_half[OF fk inp dv(1,2) pos, where 'r = seqs] obtain fo where
    Kf: "\<forall>K :: tensor \<Rightarrow> error + seqs.
          bind_r (collect (interp_window (clone (cuda (eye t))) inp fake) [0..<t] []) (\<lambda>seqs.
                     bind_r (cat seqs 0) (\<lambda>fs.
                     bind_r (view fs [Some (b * t), None, Some h, Some w]) K)) = K fo" and
    mf: "meta fo [b * t, t * c, h, w] CUDA (grad_src inp \<union> grad_src fake)" and
    ef: "\<forall>i<t. \<forall>bb<b. \<forall>j<t. \<forall>cc<c. \<forall>y<h. \<forall>xx<w.
                 tget fo [i * b + bb, j * c + cc, y, xx] =
                   (if j = i then tget fake [bb, j, cc, y, xx] else tget inp [bb, j, cc, y, xx])"
    by blast
  from interp_half[OF rl inp dv(1,3) pos, where 'r = seqs] obtain ro where
    Kr: "\<forall>K :: tensor \<Rightarrow> error + seqs.
          bind_r (collect (interp_window (clone (cuda (eye t))) inp rl) [0..<t] []) (\<lambda>seqs.
                     bind_r (cat seqs 0) (\<lambda>fs.
                     bind_r (view fs [Some (b * t), None, Some h, Some w]) K)) = K ro" and
    mr: "meta ro [b * t, t * c, h, w] CUDA (grad_src inp \<union> grad_src rl)" and
    er: "\<forall>i<t. \<forall>bb<b. \<forall>j<t. \<forall>cc<c. \<forall>y<h. \<forall>xx<w.
                 tget ro [i * b + bb, j * c + cc, y, xx] =
                   (if j = i then tget rl [bb, j, cc, y, xx] else tget inp [bb, j, cc, y, xx])"
    by blast
  have "rearrange_seq_interp (Some rl) fake inp False = Inr (RealFake ro fo)"
    unfolding rearrange_seq_interp_def Let_def by (simp add: fk Kf Kr) (simp add: clone_def)
  with mf mr ef er show ?thesis by auto
qed

subsection \<open>Flattening time into the batch\<close>

lemma view_flat:
  "view (contiguous x) [None, Some c, Some h, Some w] =
     (if c * h * w = 0 \<or> \<not> c * h * w dvd numel (shape x) then Inl RuntimeError
      else Inr (x\<lparr>shape := [numel (shape x) div (c * h * w), c, h, w]\<rparr>))"
  by (simp add: view_def Let_def contiguous_def mult.assoc mod_eq_0_iff_dvd)

lemma netD_inputs_flat:
  assumes "\<not> seq D" and "shape fake = [b, t, c, h, w]"
  shows "netD_inputs D rl fake inp =
     (if c * h * w = 0 \<or> \<not> c * h * w dvd numel (shape rl) then Inl RuntimeError
      else Inr (rl\<lparr>shape := [numel (shape rl) div (c * h * w), c, h, w]\<rparr>,
                fake\<lparr>shape := [b * t, c, h, w]\<rparr>))"
proof -
  have n: "numel (shape fake) = b * t * (c * h * w)" using assms(2) by (simp add: mult.assoc)
  have d: "c * h * w dvd numel (shape fake)" unfolding n by simp
  have q: "c * h * w \<noteq> 0 \<Longrightarrow> numel (shape fake) div (c * h * w) = b * t" unfolding n by simp
  show ?thesis
    unfolding netD_inputs_def using assms d q
    by (simp add: view_flat clone_def del: numel_Cons)
qed

lemma netG_inputs_flat:
  assumes "\<not> seq D" and "shape fake = [b, t, c, h, w]"
  shows "netG_inputs D fake inp =
     (if c * h * w = 0 then Inl RuntimeError else Inr (fake\<lparr>shape := [b * t, c, h, w]\<rparr>))"
proof -
  have n: "numel (shape fake) = b * t * (c * h * w)" using assms(2) by (simp add: mult.assoc)
  have d: "c * h * w dvd numel (shape fake)" unfolding n by simp
  have q: "c * h * w \<noteq> 0 \<Longrightarrow> numel (shape fake) div (c * h * w) = b * t" unfolding n by simp
  show ?thesis
    unfolding netG_inputs_def using assms d q
    by (simp add: view_flat clone_def del: numel_Cons)
qed

subsection \<open>The squared-error tail of the losses\<close>

lemma broadcast_rev_same: "broadcast_rev xs xs = Some xs"
  by (induction xs) simp_all

lemma broadcast_shapes_same: "broadcast_shapes s s = Some s"
  by (simp add: broadcast_shapes_def broadcast_rev_same)

lemma data_mk_nth: "k < numel s \<Longrightarrow> data (mk s f d g) ! k = f (unravel s k)"
  by (simp add: mk_def)

lemma sub_ones:
  assumes wf: "wf_tensor pr"
  shows "sub pr (clone (to dv (ones_like pr))) =
           (if device pr = dv
            then Inr \<lparr>shape = shape pr, data = map (\<lambda>v. v - 1) (data pr), device = device pr,
                      grad_src = grad_src pr\<rparr>
            else Inl RuntimeError)"
proof (cases "device pr = dv")
  case False
  then show ?thesis by (simp add: sub_def binop_def clone_def)
next
  case True
  let ?s = "shape pr"
  let ?lab = "clone (to dv (ones_like pr))"
  have len: "length (data pr) = numel ?s" using wf by (simp add: wf_tensor_def)
  have "map (\<lambda>k. tget pr (bidx ?s (unravel ?s k)) - tget ?lab (bidx (shape ?lab) (unravel ?s k))) [0..<numel ?s]
          = map (\<lambda>v. v - 1) (data pr)"
  proof (rule nth_equalityI)
    show "length (map (\<lambda>k. tget pr (bidx ?s (unravel ?s k)) - tget ?lab (bidx (shape ?lab) (unravel ?s k))) [0..<numel ?s])
            = length (map (\<lambda>v. v - 1) (data pr))" using len by simp
  next
    fix k assume "k < length (map (\<lambda>k. tget pr (bidx ?s (unravel ?s k)) - tget ?lab (bidx (shape ?lab) (unravel ?s k))) [0..<numel ?s])"
    then have k: "k < numel ?s" by simp
    have b: "bidx ?s (unravel ?s k) = unravel ?s k" by (rule bidx_valid[OF valid_unravel[OF k]])
    have r: "ravel ?s (unravel ?s k) = k" by (rule ravel_unravel[OF k])
    have 1: "tget pr (unravel ?s k) = data pr ! k" by (simp add: tget_def r)
    have 2: "tget ?lab (unravel ?s k) = 1" using k by (simp add: tget_def clone_def ones_like_def r)
    have sl: "shape ?lab = ?s" by (simp add: clone_def ones_like_def)
    show "map (\<lambda>k. tget pr (bidx ?s (unravel ?s k)) - tget ?lab (bidx (shape ?lab) (unravel ?s k))) [0..<numel ?s] ! k
            = map (\<lambda>v. v - 1) (data pr) ! k"
      using k len by (simp add: sl b 1 2)
  qed
  then show ?thesis using True
    by (simp add: sub_def binop_def clone_def ones_like_def broadcast_shapes_same mk_def)
qed

lemma loss_D_tail:
  assumes wf: "wf_tensor pr" and dp: "device pf = device pr"
  shows "(let real_label = to dv (ones_like pr); loss_fake = mean (pow2 pf) in
          bind_r (sub pr (clone real_label)) (\<lambda>diff.
          let loss_real = mean (pow2 diff) in
          bind_r (loss_add loss_real loss_fake) (\<lambda>total.
          Inr (loss_scale total (1 / 2)))))
       = (if device pr = dv
          then Inr \<lparr>lval = (if data pr = [] \<or> data pf = [] then NaN
                           else Val (1 / 2 * ((\<Sum>v\<leftarrow>data pr. (v - 1) ^ 2) / real (length (data pr))
                                             + (\<Sum>v\<leftarrow>data pf. v ^ 2) / real (length (data pf))))),
                    ldevice = device pr, lgrad_src = grad_src pr \<union> grad_src pf\<rparr>
          else Inl RuntimeError)"
  by (simp add: sub_ones[OF wf] Let_def mean_def pow2_def loss_add_def loss_scale_def dp o_def)

lemma loss_G_tail:
  assumes wf: "wf_tensor pf"
  shows "(let real_label = clone (to dv (ones_like pf)) in
          bind_r (sub pf real_label) (\<lambda>diff.
          let loss_real = mean (pow2 diff) in Inr loss_real))
       = (if device pf = dv
          then Inr \<lparr>lval = (if data pf = [] then NaN
                           else Val ((\<Sum>v\<leftarrow>data pf. (v - 1) ^ 2) / real (length (data pf)))),
                    ldevice = device pf, lgrad_src = grad_src pf\<rparr>
          else Inl RuntimeError)"
  by (simp add: sub_ones[OF wf] Let_def mean_def pow2_def o_def)

lemma netD_adv_loss_built:
  assumes built: "Discriminator init pid ic dv sq ex = Inr (D0, p)"
  shows "(netD_adv_loss (to_D d D0) rl fake inp = Inr l) =
         (\<exists>r' f' pr pf. netD_inputs (to_D d D0) rl fake inp = Inr (r', f')
            \<and> forward (to_D d D0) (detach f') = Inr pf \<and> forward (to_D d D0) r' = Inr pr \<and> d = dv
            \<and> l = \<lparr>lval = (if data pr = [] \<or> data pf = [] then NaN
                           else Val (1 / 2 * ((\<Sum>v\<leftarrow>data pr. (v - 1) ^ 2) / real (length (data pr))
                                             + (\<Sum>v\<leftarrow>data pf. v ^ 2) / real (length (data pf))))),
                    ldevice = d, lgrad_src = grad_src pr \<union> grad_src pf\<rparr>)"
proof -
  have sd: "self_device (to_D d D0) = dv" by (rule built_layers(8)[OF built])
  have tail: "\<And>pr pf. forward (to_D d D0) pf' = Inr pf \<Longrightarrow> forward (to_D d D0) pr' = Inr pr \<Longrightarrow>
      (let real_label = to dv (ones_like pr); loss_fake = mean (pow2 pf) in
          bind_r (sub pr (clone real_label)) (\<lambda>diff.
          let loss_real = mean (pow2 diff) in
          bind_r (loss_add loss_real loss_fake) (\<lambda>total.
          Inr (loss_scale total (1 / 2)))))
       = (if d = dv
          then Inr \<lparr>lval = (if data pr = [] \<or> data pf = [] then NaN
                           else Val (1 / 2 * ((\<Sum>v\<leftarrow>data pr. (v - 1) ^ 2) / real (length (data pr))
                                             + (\<Sum>v\<leftarrow>data pf. v ^ 2) / real (length (data pf))))),
                    ldevice = d, lgrad_src = grad_src pr \<union> grad_src pf\<rparr>
          else Inl RuntimeError)" for pf' pr'
  proof -
    fix pr pf assume f: "forward (to_D d D0) pf' = Inr pf" and r: "forward (to_D d D0) pr' = Inr pr"
    from forward_Inr[OF built f] have pf: "device pf = d" by (auto simp: meta_def)
    from forward_Inr[OF built r] have pr: "device pr = d" "wf_tensor pr" by (auto simp: meta_def)
    show "(let real_label = to dv (ones_like pr); loss_fake = mean (pow2 pf) in
          bind_r (sub pr (clone real_label)) (\<lambda>diff.
          let loss_real = mean (pow2 diff) in
          bind_r (loss_add loss_real loss_fake) (\<lambda>total.
          Inr (loss_scale total (1 / 2)))))
       = (if d = dv
          then Inr \<lparr>lval = (if data pr = [] \<or> data pf = [] then NaN
                           else Val (1 / 2 * ((\<Sum>v\<leftarrow>data pr. (v - 1) ^ 2) / real (length (data pr))
                                             + (\<Sum>v\<leftarrow>data pf. v ^ 2) / real (length (data pf))))),
                    ldevice = d, lgrad_src = grad_src pr \<union> grad_src pf\<rparr>
          else Inl RuntimeError)"
      using loss_D_tail[OF pr(2), of pf dv] pf pr(1) by simp
  qed
  show ?thesis
  proof
    assume a: "netD_adv_loss (to_D d D0) rl fake inp = Inr l"
    then obtain r' f' pf pr where
      i: "netD_inputs (to_D d D0) rl fake inp = Inr (r', f')" and
      f: "forward (to_D d D0) (detach f') = Inr pf" and
      r: "forward (to_D d D0) r' = Inr pr" and
      t: "(let real_label = to dv (ones_like pr); loss_fake = mean (pow2 pf) in
          bind_r (sub pr (clone real_label)) (\<lambda>diff.
          let loss_real = mean (pow2 diff) in
          bind_r (loss_add loss_real loss_fake) (\<lambda>total.
          Inr (loss_scale total (1 / 2))))) = Inr l"
      unfolding netD_adv_loss_def sd by (auto simp: bind_r_eq_Inr clone_def)
    from t tail[OF f r] have "d = dv \<and> l = \<lparr>lval = (if data pr = [] \<or> data pf = [] then NaN
                           else Val (1 / 2 * ((\<Sum>v\<leftarrow>data pr. (v - 1) ^ 2) / real (length (data pr))
                                             + (\<Sum>v\<leftarrow>data pf. v ^ 2) / real (length (data pf))))),
                    ldevice = d, lgrad_src = grad_src pr \<union> grad_src pf\<rparr>"
      by (auto split: if_splits)
    with i f r show "\<exists>r' f' pr pf. netD_inputs (to_D d D0) rl fake inp = Inr (r', f')
            \<and> forward (to_D d D0) (detach f') = Inr pf \<and> forward (to_D d D0) r' = Inr pr \<and> d = dv
            \<and> l = \<lparr>lval = (if data pr = [] \<or> data pf = [] then NaN
                           else Val (1 / 2 * ((\<Sum>v\<leftarrow>data pr. (v - 1) ^ 2) / real (length (data pr))
                                             + (\<Sum>v\<leftarrow>data pf. v ^ 2) / real (length (data pf))))),
                    ldevice = d, lgrad_src = grad_src pr \<union> grad_src pf\<rparr>"
      by blast
  next
    assume "\<exists>r' f' pr pf. netD_inputs (to_D d D0) rl fake inp = Inr (r', f')
            \<and> forward (to_D d D0) (detach f') = Inr pf \<and> forward (to_D d D0) r' = Inr pr \<and> d = dv
            \<and> l = \<lparr>lval = (if data pr = [] \<or> data pf = [] then NaN
                           else Val (1 / 2 * ((\<Sum>v\<leftarrow>data pr. (v - 1) ^ 2) / real (length (data pr))
                                             + (\<Sum>v\<leftarrow>data pf. v ^ 2) / real (length (data pf))))),
                    ldevice = d, lgrad_src = grad_src pr \<union> grad_src pf\<rparr>"
    then obtain r' f' pr pf where
      i: "netD_inputs (to_D d D0) rl fake inp = Inr (r', f')" and
      f: "forward (to_D d D0) (detach f') = Inr pf" and
      r: "forward (to_D d D0) r' = Inr pr" and dd: "d = dv" and
      l: "l = \<lparr>lval = (if data pr = [] \<or> data pf = [] then NaN
                           else Val (1 / 2 * ((\<Sum>v\<leftarrow>data pr. (v - 1) ^ 2) / real (length (data pr))
                                             + (\<Sum>v\<leftarrow>data pf. v ^ 2) / real (length (data pf))))),
                    ldevice = d, lgrad_src = grad_src pr \<union> grad_src pf\<rparr>"
      by blast
    have "netD_adv_loss (to_D d D0) rl fake inp =
        (let real_label = to dv (ones_like pr); loss_fake = mean (pow2 pf) in
          bind_r (sub pr (clone real_label)) (\<lambda>diff.
          let loss_real = mean (pow2 diff) in
          bind_r (loss_add loss_real loss_fake) (\<lambda>total.
          Inr (loss_scale total (1 / 2)))))"
      unfolding netD_adv_loss_def sd by (simp only: i f r bind_r_Inr clone_def prod.case)
    also have "\<dots> = Inr l" unfolding tail[OF f r] using dd l by simp
    finally show "netD_adv_loss (to_D d D0) rl fake inp = Inr l" .
  qed
qed

lemma netG_adv_loss_built:
  assumes built: "Discriminator init pid ic dv sq ex = Inr (D0, p)"
  shows "(netG_adv_loss (to_D d D0) fake inp = Inr l) =
         (\<exists>f' pf. netG_inputs (to_D d D0) fake inp = Inr f'
            \<and> forward (to_D d D0) f' = Inr pf \<and> d = dv
            \<and> l = \<lparr>lval = (if data pf = [] then NaN
                           else Val ((\<Sum>v\<leftarrow>data pf. (v - 1) ^ 2) / real (length (data pf)))),
                    ldevice = d, lgrad_src = grad_src pf\<rparr>)"
proof -
  have sd: "self_device (to_D d D0) = dv" by (rule built_layers(8)[OF built])
  have tail: "\<And>pf. forward (to_D d D0) pf' = Inr pf \<Longrightarrow>
      (let real_label = clone (to dv (ones_like pf)) in
          bind_r (sub pf real_label) (\<lambda>diff.
          let loss_real = mean (pow2 diff) in Inr loss_real))
       = (if d = dv
          then Inr \<lparr>lval = (if data pf = [] then NaN
                           else Val ((\<Sum>v\<leftarrow>data pf. (v - 1) ^ 2) / real (length (data pf)))),
                    ldevice = d, lgrad_src = grad_src pf\<rparr>
          else Inl RuntimeError)" for pf'
  proof -
    fix pf assume f: "forward (to_D d D0) pf' = Inr pf"
    from forward_Inr[OF built f] have pf: "device pf = d" "wf_tensor pf" by (auto simp: meta_def)
    show "(let real_label = clone (to dv (ones_like pf)) in
          bind_r (sub pf real_label) (\<lambda>diff.
          let loss_real = mean (pow2 diff) in Inr loss_real))
       = (if d = dv
          then Inr \<lparr>lval = (if data pf = [] then NaN
                           else Val ((\<Sum>v\<leftarrow>data pf. (v - 1) ^ 2) / real (length (data pf)))),
                    ldevice = d, lgrad_src = grad_src pf\<rparr>
          else Inl RuntimeError)"
      using loss_G_tail[OF pf(2), of dv] pf(1) by simp
  qed
  show ?thesis
  proof
    assume a: "netG_adv_loss (to_D d D0) fake inp = Inr l"
    then obtain f' pf where
      i: "netG_inputs (to_D d D0) fake inp = Inr f'" and
      f: "forward (to_D d D0) f' = Inr pf" and
      t: "(let real_label = clone (to dv (ones_like pf)) in
          bind_r (sub pf real_label) (\<lambda>diff.
          let loss_real = mean (pow2 diff) in Inr loss_real)) = Inr l"
      unfolding netG_adv_loss_def sd by (auto simp: bind_r_eq_Inr clone_def)
    from t tail[OF f] have "d = dv \<and> l = \<lparr>lval = (if data pf = [] then NaN
                           else Val ((\<Sum>v\<leftarrow>data pf. (v - 1) ^ 2) / real (length (data pf)))),
                    ldevice = d, lgrad_src = grad_src pf\<rparr>"
      by (auto split: if_splits)
    with i f show "\<exists>f' pf. netG_inputs (to_D d D0) fake inp = Inr f'
            \<and> forward (to_D d D0) f' = Inr pf \<and> d = dv
            \<and> l = \<lparr>lval = (if data pf = [] then NaN
                           else Val ((\<Sum>v\<leftarrow>data pf. (v - 1) ^ 2) / real (length (data pf)))),
                    ldevice = d, lgrad_src = grad_src pf\<rparr>"
      by blast
  next
    assume "\<exists>f' pf. netG_inputs (to_D d D0) fake inp = Inr f'
            \<and> forward (to_D d D0) f' = Inr pf \<and> d = dv
            \<and> l = \<lparr>lval = (if data pf = [] then NaN
                           else Val ((\<Sum>v\<leftarrow>data pf. (v - 1) ^ 2) / real (length (data pf)))),
                    ldevice = d, lgrad_src = grad_src pf\<rparr>"
    then obtain f' pf where
      i: "netG_inputs (to_D d D0) fake inp = Inr f'" and
      f: "forward (to_D d D0) f' = Inr pf" and dd: "d = dv" and
      l: "l = \<lparr>lval = (if data pf = [] then NaN
                           else Val ((\<Sum>v\<leftarrow>data pf. (v - 1) ^ 2) / real (length (data pf)))),
                    ldevice = d, lgrad_src = grad_src pf\<rparr>"
      by blast
    have "netG_adv_loss (to_D d D0) fake inp =
        (let real_label = clone (to dv (ones_like pf)) in
          bind_r (sub pf real_label) (\<lambda>diff.
          let loss_real = mean (pow2 diff) in Inr loss_real))"
      unfolding netG_adv_loss_def sd by (simp only: i f bind_r_Inr clone_def)
    also have "\<dots> = Inr l" unfolding tail[OF f] using dd l by simp
    finally show "netG_adv_loss (to_D d D0) fake inp = Inr l" .
  qed
qed

subsection \<open>What the rearrangements do to the autograd history\<close>

lemma view_Inr: "view x dims = Inr y \<Longrightarrow> grad_src y = grad_src x \<and> data y = data x \<and> device y = device x"
  by (auto simp: view_def Let_def split: if_splits)

lemma binop_Inr: "binop f x y = Inr z \<Longrightarrow> grad_src z = grad_src x \<union> grad_src y"
  by (auto simp: binop_def split: if_splits option.splits)

lemma cat_Inr: "cat ws ax = Inr z \<Longrightarrow> ws \<noteq> [] \<and> grad_src z = \<Union> (grad_src ` set ws)"
  by (auto simp: cat_def split: list.splits if_splits)

lemma slice_from_Inr: "slice_from x i = Inr y \<Longrightarrow> grad_src y = grad_src x"
  by (auto simp: slice_from_def split: list.splits)

lemma slice_to_Inr: "slice_to x n = Inr y \<Longrightarrow> grad_src y = grad_src x"
  by (auto simp: slice_to_def split: list.splits)

lemma select0_Inr: "select0 x i = Inr y \<Longrightarrow> grad_src y = grad_src x"
  by (auto simp: select0_def split: list.splits if_splits)

lemma seq_window_Inr: "seq_window inp x i = Inr wd \<Longrightarrow> grad_src wd = grad_src inp \<union> grad_src x"
  by (auto simp: seq_window_def bind_r_eq_Inr clone_def dest!: slice_from_Inr slice_to_Inr cat_Inr)

lemma interp_window_Inr:
  "interp_window (clone (cuda (eye t))) inp x i = Inr wd \<Longrightarrow> grad_src wd = grad_src inp \<union> grad_src x"
proof -
  assume "interp_window (clone (cuda (eye t))) inp x i = Inr wd"
  then obtain row m keep put where
    1: "select0 (cuda (eye t)) i = Inr row" and 2: "view row [Some 1, None, Some 1, Some 1, Some 1] = Inr m"
    and 3: "mul (rsub 1 m) inp = Inr keep" and 4: "mul m x = Inr put" and 5: "add keep put = Inr wd"
    by (auto simp: interp_window_def bind_r_eq_Inr clone_def Let_def)
  have "grad_src m = {}" using select0_Inr[OF 1] view_Inr[OF 2] by (simp add: cuda_def eye_def)
  then show ?thesis
    using binop_Inr[OF 3[unfolded mul_def]] binop_Inr[OF 4[unfolded mul_def]] binop_Inr[OF 5[unfolded add_def]]
    by (simp add: rsub_def)
qed

lemma collect_grad:
  assumes "collect body js acc = Inr ws"
      and "\<And>i wd. body i = Inr wd \<Longrightarrow> grad_src wd = G"
      and "\<And>a. a \<in> set acc \<Longrightarrow> grad_src a = G"
  shows "\<And>wd. wd \<in> set ws \<Longrightarrow> grad_src wd = G"
  using assms
proof (induction js arbitrary: acc)
  case Nil
  then show ?case by simp
next
  case (Cons j js)
  from Cons.prems(2) obtain s where s: "body j = Inr s" and r: "collect body js (acc @ [s]) = Inr ws"
    by (auto simp: bind_r_eq_Inr)
  have "\<And>a. a \<in> set (acc @ [s]) \<Longrightarrow> grad_src a = G"
    using Cons.prems(4) Cons.prems(3)[OF s] by auto
  from Cons.IH[OF Cons.prems(1) r Cons.prems(3) this] show ?case by simp
qed

lemma stacked_grad:
  assumes "bind_r (collect body js []) (\<lambda>seqs. bind_r (cat seqs 0) (\<lambda>fs. view fs dims)) = Inr out"
      and "\<And>i wd. body i = Inr wd \<Longrightarrow> grad_src wd = G"
  shows "grad_src out = G"
proof -
  from assms(1) obtain ws fs where c: "collect body js [] = Inr ws" and k: "cat ws 0 = Inr fs"
    and v: "view fs dims = Inr out"
    by (auto simp: bind_r_eq_Inr)
  have g: "\<And>wd. wd \<in> set ws \<Longrightarrow> grad_src wd = G"
    by (rule collect_grad[OF c assms(2)]) simp_all
  from cat_Inr[OF k] have "ws \<noteq> []" "grad_src fs = \<Union> (grad_src ` set ws)" by simp_all
  then have "grad_src fs = G" using g by (cases ws) auto
  with view_Inr[OF v] show ?thesis by simp
qed

lemma rearrange_seq_Inr:
  assumes "rearrange_seq r fake inp only = Inr res"
  shows "\<exists>fo. rearrange_seq r' fake inp True = Inr (FakeOnly fo)
           \<and> grad_src fo = grad_src inp \<union> grad_src fake
           \<and> (if only then res = FakeOnly fo
               else \<exists>rl ro. r = Some rl \<and> res = RealFake ro fo \<and> grad_src ro = grad_src inp \<union> grad_src rl)"
proof -
  from assms obtain b t c h w ws fs fo where
    sz: "size5 fake = Inr (b, t, c, h, w)" and
    c1: "collect (seq_window inp fake) [0..<t] [] = Inr ws" and
    k1: "cat ws 0 = Inr fs" and
    v1: "view fs [Some (b * t), None, Some h, Some w] = Inr fo" and
    rest: "(if only then Inr (FakeOnly (clone fo))
            else case r of None \<Rightarrow> Inl TypeError
                 | Some rl \<Rightarrow>
                     bind_r (collect (seq_window inp rl) [0..<t] []) (\<lambda>real_seqs.
                     bind_r (cat real_seqs 0) (\<lambda>rs.
                     bind_r (view rs [Some (b * t), None, Some h, Some w]) (\<lambda>real_seqs.
                     Inr (RealFake (clone real_seqs) (clone fo)))))) = Inr res"
    unfolding rearrange_seq_def by (auto simp: bind_r_eq_Inr)
  have f: "rearrange_seq r' fake inp True = Inr (FakeOnly fo)"
    unfolding rearrange_seq_def by (simp add: sz c1 k1 v1 clone_def)
  have "bind_r (collect (seq_window inp fake) [0..<t] []) (\<lambda>seqs. bind_r (cat seqs 0)
          (\<lambda>fs. view fs [Some (b * t), None, Some h, Some w])) = Inr fo"
    by (simp add: c1 k1 v1)
  from stacked_grad[OF this seq_window_Inr] have g: "grad_src fo = grad_src inp \<union> grad_src fake" .
  show ?thesis
  proof (cases only)
    case True
    with rest f g show ?thesis by (auto simp: clone_def)
  next
    case False
    with rest obtain rl ws' rs ro where
      r: "r = Some rl" and
      c2: "collect (seq_window inp rl) [0..<t] [] = Inr ws'" and
      k2: "cat ws' 0 = Inr rs" and
      v2: "view rs [Some (b * t), None, Some h, Some w] = Inr ro" and
      res: "res = RealFake ro fo"
      by (auto simp: bind_r_eq_Inr clone_def split: option.splits)
    have "bind_r (collect (seq_window inp rl) [0..<t] []) (\<lambda>seqs. bind_r (cat seqs 0)
          (\<lambda>fs. view fs [Some (b * t), None, Some h, Some w])) = Inr ro"
      by (simp add: c2 k2 v2)
    from stacked_grad[OF this seq_window_Inr] have "grad_src ro = grad_src inp \<union> grad_src rl" .
    with False f g r res show ?thesis by auto
  qed
qed

lemma rearrange_seq_interp_Inr:
  assumes "rearrange_seq_interp r fake inp only = Inr res"
  shows "\<exists>fo. rearrange_seq_interp r' fake inp True = Inr (FakeOnly fo)
           \<and> grad_src fo = grad_src inp \<union> grad_src fake
           \<and> (if only then res = FakeOnly fo
               else \<exists>rl ro. r = Some rl \<and> res = RealFake ro fo \<and> grad_src ro = grad_src inp \<union> grad_src rl)"
proof -
  from assms obtain b t c h w ws fs fo where
    sz: "size5 fake = Inr (b, t, c, h, w)" and
    c1: "collect (interp_window (clone (cuda (eye t))) inp fake) [0..<t] [] = Inr ws" and
    k1: "cat ws 0 = Inr fs" and
    v1: "view fs [Some (b * t), None, Some h, Some w] = Inr fo" and
    rest: "(if only then Inr (FakeOnly (clone fo))
            else case r of None \<Rightarrow> Inl TypeError
                 | Some rl \<Rightarrow>
                     bind_r (collect (interp_window (clone (cuda (eye t))) inp rl) [0..<t] []) (\<lambda>real_seqs.
                     bind_r (cat real_seqs 0) (\<lambda>rs.
                     bind_r (view rs [Some (b * t), None, Some h, Some w]) (\<lambda>real_seqs.
                     Inr (RealFake (clone real_seqs) (clone fo)))))) = Inr res"
    unfolding rearrange_seq_interp_def Let_def by (auto simp: bind_r_eq_Inr)
  have f: "rearrange_seq_interp r' fake inp True = Inr (FakeOnly fo)"
    unfolding rearrange_seq_interp_def Let_def by (simp add: sz c1 k1 v1) (simp add: clone_def)
  have "bind_r (collect (interp_window (clone (cuda (eye t))) inp fake) [0..<t] []) (\<lambda>seqs. bind_r (cat seqs 0)
          (\<lambda>fs. view fs [Some (b * t), None, Some h, Some w])) = Inr fo"
    by (simp add: c1 k1 v1)
  from stacked_grad[OF this interp_window_Inr] have g: "grad_src fo = grad_src inp \<union> grad_src fake" .
  show ?thesis
  proof (cases only)
    case True
    with rest f g show ?thesis by (auto simp: clone_def)
  next
    case False
    with rest obtain rl ws' rs ro where
      r: "r = Some rl" and
      c2: "collect (interp_window (clone (cuda (eye t))) inp rl) [0..<t] [] = Inr ws'" and
      k2: "cat ws' 0 = Inr rs" and
      v2: "view rs [Some (b * t), None, Some h, Some w] = Inr ro" and
      res: "res = RealFake ro fo"
      by (auto simp: bind_r_eq_Inr clone_def split: option.splits)
    have "bind_r (collect (interp_window (clone (cuda (eye t))) inp rl) [0..<t] []) (\<lambda>seqs. bind_r (cat seqs 0)
          (\<lambda>fs. view fs [Some (b * t), None, Some h, Some w])) = Inr ro"
      by (simp add: c2 k2 v2)
    from stacked_grad[OF this interp_window_Inr] have "grad_src ro = grad_src inp \<union> grad_src rl" .
    with False f g r res show ?thesis by auto
  qed
qed

lemma netD_inputs_Inr:
  assumes "netD_inputs D rl fake inp = Inr (r', f')"
  shows "netG_inputs D fake inp = Inr f'
       \<and> grad_src r' = grad_src rl \<union> (if seq D then grad_src inp else {})
       \<and> grad_src f' = grad_src fake \<union> (if seq D then grad_src inp else {})"
proof (cases "seq D")
  case False
  with assms obtain b t c h w where
    sz: "size5 fake = Inr (b, t, c, h, w)" and
    v1: "view (contiguous rl) [None, Some c, Some h, Some w] = Inr r'" and
    v2: "view (contiguous fake) [None, Some c, Some h, Some w] = Inr f'"
    unfolding netD_inputs_def by (auto simp: bind_r_eq_Inr clone_def)
  from view_Inr[OF v1] view_Inr[OF v2] False sz v2 show ?thesis
    by (simp add: netG_inputs_def contiguous_def clone_def)
next
  case True
  show ?thesis
  proof (cases "is_extrap D")
    case e: True
    from assms True e obtain res where
      a0: "rearrange_seq (Some rl) fake inp False = Inr res" and
      c0: "(case res of RealFake x y \<Rightarrow> Inr (x, y) | FakeOnly f \<Rightarrow> Inl TypeError) = Inr (r', f')"
      unfolding netD_inputs_def by (auto simp: bind_r_eq_Inr clone_def)
    then have a: "rearrange_seq (Some rl) fake inp False = Inr (RealFake r' f')"
      by (cases res) auto
    from rearrange_seq_Inr[OF a, of None] obtain fo where
      "rearrange_seq None fake inp True = Inr (FakeOnly fo)" "fo = f'"
      "grad_src fo = grad_src inp \<union> grad_src fake" "grad_src r' = grad_src inp \<union> grad_src rl"
      by auto
    moreover from a have "\<exists>s. size5 fake = Inr s" unfolding rearrange_seq_def by (auto simp: bind_r_eq_Inr)
    ultimately show ?thesis using True e
      by (auto simp: netG_inputs_def clone_def)
  next
    case e: False
    from assms True e obtain res where
      a0: "rearrange_seq_interp (Some rl) fake inp False = Inr res" and
      c0: "(case res of RealFake x y \<Rightarrow> Inr (x, y) | FakeOnly f \<Rightarrow> Inl TypeError) = Inr (r', f')"
      unfolding netD_inputs_def by (auto simp: bind_r_eq_Inr clone_def)
    then have a: "rearrange_seq_interp (Some rl) fake inp False = Inr (RealFake r' f')"
      by (cases res) auto
    from rearrange_seq_interp_Inr[OF a, of None] obtain fo where
      "rearrange_seq_interp None fake inp True = Inr (FakeOnly fo)" "fo = f'"
      "grad_src fo = grad_src inp \<union> grad_src fake" "grad_src r' = grad_src inp \<union> grad_src rl"
      by auto
    moreover from a have "\<exists>s. size5 fake = Inr s"
      unfolding rearrange_seq_interp_def by (auto simp: bind_r_eq_Inr)
    ultimately show ?thesis using True e
      by (auto simp: netG_inputs_def clone_def)
  qed
qed

lemma netG_inputs_Inr:
  assumes "netG_inputs D fake inp = Inr f'"
  shows "grad_src f' = grad_src fake \<union> (if seq D then grad_src inp else {})"
proof (cases "seq D")
  case False
  with assms obtain c h w where
    v2: "view (contiguous fake) [None, Some c, Some h, Some w] = Inr f'"
    unfolding netG_inputs_def by (auto simp: bind_r_eq_Inr clone_def)
  from view_Inr[OF v2] False show ?thesis by (simp add: contiguous_def)
next
  case True
  show ?thesis
  proof (cases "is_extrap D")
    case e: True
    from assms True e obtain res where
      a0: "rearrange_seq None fake inp True = Inr res" and
      c0: "(case res of FakeOnly x \<Rightarrow> Inr x | RealFake x y \<Rightarrow> Inl TypeError) = Inr f'"
      unfolding netG_inputs_def by (auto simp: bind_r_eq_Inr clone_def)
    then have a: "rearrange_seq None fake inp True = Inr (FakeOnly f')"
      by (cases res) auto
    from rearrange_seq_Inr[OF a, of None] True show ?thesis by auto
  next
    case e: False
    from assms True e obtain res where
      a0: "rearrange_seq_interp None fake inp True = Inr res" and
      c0: "(case res of FakeOnly x \<Rightarrow> Inr x | RealFake x y \<Rightarrow> Inl TypeError) = Inr f'"
      unfolding netG_inputs_def by (auto simp: bind_r_eq_Inr clone_def)
    then have a: "rearrange_seq_interp None fake inp True = Inr (FakeOnly f')"
      by (cases res) auto
    from rearrange_seq_interp_Inr[OF a, of None] True show ?thesis by auto
  qed
qed

subsection \<open>Inputs on which the losses return\<close>

lemma netD_adv_loss_flat_ok:
  assumes built: "Discriminator init pid ic dv False ex = Inr (D0, p)"
      and fk: "shape fake = [b, t, nat ic, h, w]" and dvd: "nat ic * h * w dvd numel (shape rl)"
      and dev: "device rl = dv" "device fake = dv"
      and pos: "0 < ic" "8 \<le> h" "8 \<le> w" "16 \<le> h \<or> 16 \<le> w"
  shows "\<exists>l r' f'. netD_adv_loss (to_D dv D0) rl fake inp = Inr l
           \<and> netD_inputs (to_D dv D0) rl fake inp = Inr (r', f')
           \<and> shape r' = [numel (shape rl) div (nat ic * h * w), nat ic, h, w]
           \<and> shape f' = [b * t, nat ic, h, w] \<and> ldevice l = dv"
proof -
  let ?D = "to_D dv D0"
  let ?r = "rl\<lparr>shape := [numel (shape rl) div (nat ic * h * w), nat ic, h, w]\<rparr>"
  let ?f = "fake\<lparr>shape := [b * t, nat ic, h, w]\<rparr>"
  have ns: "\<not> seq ?D" using built_layers(9)[OF built] by simp
  have nz: "nat ic * h * w \<noteq> 0" using pos by auto
  have i: "netD_inputs ?D rl fake inp = Inr (?r, ?f)"
    using netD_inputs_flat[OF ns fk, of rl inp] dvd nz by simp
  obtain pr where pr: "forward ?D ?r = Inr pr"
    using forward_ok[OF built, of ?r _ h w dv] dev pos by auto
  obtain pf where pf: "forward ?D (detach ?f) = Inr pf"
    using forward_ok[OF built, of "detach ?f" _ h w dv] dev pos by (auto simp: detach_def)
  let ?l = "\<lparr>lval = (if data pr = [] \<or> data pf = [] then NaN
                           else Val (1 / 2 * ((\<Sum>v\<leftarrow>data pr. (v - 1) ^ 2) / real (length (data pr))
                                             + (\<Sum>v\<leftarrow>data pf. v ^ 2) / real (length (data pf))))),
                    ldevice = dv, lgrad_src = grad_src pr \<union> grad_src pf\<rparr>"
  have "netD_adv_loss ?D rl fake inp = Inr ?l"
    unfolding netD_adv_loss_built[OF built] using i pr pf by blast
  with i show ?thesis by (intro exI[of _ ?l] exI[of _ ?r] exI[of _ ?f]) simp
qed

lemma netG_adv_loss_flat_ok:
  assumes built: "Discriminator init pid ic dv False ex = Inr (D0, p)"
      and fk: "shape fake = [b, t, nat ic, h, w]"
      and dev: "device fake = dv"
      and pos: "0 < ic" "8 \<le> h" "8 \<le> w" "16 \<le> h \<or> 16 \<le> w"
  shows "\<exists>l f'. netG_adv_loss (to_D dv D0) fake inp = Inr l
           \<and> netG_inputs (to_D dv D0) fake inp = Inr f'
           \<and> shape f' = [b * t, nat ic, h, w] \<and> ldevice l = dv"
proof -
  let ?D = "to_D dv D0"
  let ?f = "fake\<lparr>shape := [b * t, nat ic, h, w]\<rparr>"
  have ns: "\<not> seq ?D" using built_layers(9)[OF built] by simp
  have nz: "nat ic * h * w \<noteq> 0" using pos by auto
  have i: "netG_inputs ?D fake inp = Inr ?f"
    using netG_inputs_flat[OF ns fk, of inp] nz by simp
  obtain pf where pf: "forward ?D ?f = Inr pf"
    using forward_ok[OF built, of ?f _ h w dv] dev pos by auto
  let ?l = "\<lparr>lval = (if data pf = [] then NaN
                           else Val ((\<Sum>v\<leftarrow>data pf. (v - 1) ^ 2) / real (length (data pf)))),
                    ldevice = dv, lgrad_src = grad_src pf\<rparr>"
  have "netG_adv_loss ?D fake inp = Inr ?l"
    unfolding netG_adv_loss_built[OF built] using i pf by blast
  with i show ?thesis by (intro exI[of _ ?l] exI[of _ ?f]) simp
qed

subsection \<open>Detaching does not change what the network computes\<close>

lemma tget_grad [simp]: "tget (x\<lparr>grad_src := g\<rparr>) = tget x"
  by (simp add: tget_def fun_eq_iff)

lemma padded_grad [simp]: "padded (x\<lparr>grad_src := g\<rparr>) = padded x"
  by (simp add: padded_def fun_eq_iff)

lemma mk_grad: "(mk s f d g)\<lparr>grad_src := g'\<rparr> = mk s f d g'"
  by (simp add: mk_def)

lemma conv2d_grad:
  assumes c: "conv2d cin cout k s p w b x = Inr y"
  shows "\<exists>g'. conv2d cin cout k s p w b (x\<lparr>grad_src := g\<rparr>) = Inr (y\<lparr>grad_src := g'\<rparr>)"
proof -
  from conv2d_Inr[OF c] obtain n h wd where
    sh: "shape x = [n, cin, h, wd]" and ok: "device x = device w" "0 < k" "0 < s" "k \<le> h + 2 * p" "k \<le> wd + 2 * p"
    by blast
  let ?F = "\<lambda>idx. (case b of None \<Rightarrow> 0 | Some bt \<Rightarrow> tget bt [idx ! 1])
                    + (\<Sum>ci\<leftarrow>[0..<cin]. \<Sum>ky\<leftarrow>[0..<k]. \<Sum>kx\<leftarrow>[0..<k].
                         tget w [idx ! 1, ci, ky, kx]
                           * padded x p (idx ! 0) ci (idx ! 2 * s + ky) (idx ! 3 * s + kx))"
  let ?S = "[n, cout, conv_out h k s p, conv_out wd k s p]"
  let ?G = "\<lambda>g0. g0 \<union> grad_src w \<union> (case b of None \<Rightarrow> {} | Some bt \<Rightarrow> grad_src bt)"
  have 1: "conv2d cin cout k s p w b x = Inr (mk ?S ?F (device x) (?G (grad_src x)))"
    using ok by (simp add: conv2d_def sh)
  have 2: "conv2d cin cout k s p w b (x\<lparr>grad_src := g\<rparr>) = Inr (mk ?S ?F (device x) (?G g))"
    using ok by (simp add: conv2d_def sh)
  from c 1 have "y = mk ?S ?F (device x) (?G (grad_src x))" by simp
  then have "y\<lparr>grad_src := ?G g\<rparr> = mk ?S ?F (device x) (?G g)" by (simp only: mk_grad)
  with 2 show ?thesis by (intro exI[of _ "?G g"]) simp
qed

lemma instance_norm_grad:
  assumes c: "instance_norm x = Inr y"
  shows "\<exists>g'. instance_norm (x\<lparr>grad_src := g\<rparr>) = Inr (y\<lparr>grad_src := g'\<rparr>)"
proof -
  from instance_norm_Inr[OF c] obtain n c h wd where
    sh: "shape x = [n, c, h, wd]" and ok: "h * wd \<noteq> 1"
    by blast
  let ?F = "\<lambda>idx. let plane = map (\<lambda>k. tget x [idx ! 0, idx ! 1, k div wd, k mod wd]) [0..<h * wd];
                             mu = sum_list plane / real (h * wd);
                             var = (\<Sum>v\<leftarrow>plane. (v - mu) ^ 2) / real (h * wd)
                         in (tget x idx - mu) / sqrt (var + 1 / 100000)"
  have 1: "instance_norm x = Inr (mk [n, c, h, wd] ?F (device x) (grad_src x))"
    using ok by (simp add: instance_norm_def sh)
  have 2: "instance_norm (x\<lparr>grad_src := g\<rparr>) = Inr (mk [n, c, h, wd] ?F (device x) g)"
    using ok by (simp add: instance_norm_def sh)
  from c 1 have "y = mk [n, c, h, wd] ?F (device x) (grad_src x)" by simp
  then have "y\<lparr>grad_src := g\<rparr> = mk [n, c, h, wd] ?F (device x) g" by (simp only: mk_grad)
  with 2 show ?thesis by (intro exI[of _ g]) simp
qed

lemma apply_layer_grad:
  assumes "apply_layer l x = Inr y"
  shows "\<exists>g'. apply_layer l (x\<lparr>grad_src := g\<rparr>) = Inr (y\<lparr>grad_src := g'\<rparr>)"
proof (cases l)
  case (Conv2d cin cout k s p w b)
  with assms conv2d_grad show ?thesis by simp
next
  case (InstanceNorm2d c)
  with assms instance_norm_grad show ?thesis by simp
next
  case ReLU
  with assms show ?thesis by (intro exI[of _ g]) (auto simp: map_t_def)
next
  case (LeakyReLU a)
  with assms show ?thesis by (intro exI[of _ g]) (auto simp: map_t_def)
qed

lemma Sequential_grad:
  "Sequential ls x = Inr y \<Longrightarrow> \<exists>g'. Sequential ls (x\<lparr>grad_src := g\<rparr>) = Inr (y\<lparr>grad_src := g'\<rparr>)"
proof (induction ls arbitrary: x g)
  case Nil
  then show ?case by auto
next
  case (Cons l ls)
  from Cons.prems obtain z where z: "apply_layer l x = Inr z" and r: "Sequential ls z = Inr y"
    by (auto simp: bind_r_eq_Inr)
  from apply_layer_grad[OF z, of g] obtain g1 where
    z': "apply_layer l (x\<lparr>grad_src := g\<rparr>) = Inr (z\<lparr>grad_src := g1\<rparr>)" by blast
  from Cons.IH[OF r, of g1] obtain g2 where
    "Sequential ls (z\<lparr>grad_src := g1\<rparr>) = Inr (y\<lparr>grad_src := g2\<rparr>)" by blast
  with z' show ?case by (intro exI[of _ g2]) simp
qed

lemma forward_grad:
  assumes "forward D x = Inr y"
  shows "\<exists>g'. forward D (x\<lparr>grad_src := g\<rparr>) = Inr (y\<lparr>grad_src := g'\<rparr>)"
proof -
  from assms obtain h1 h2 h3 h4 where
    1: "Sequential (layer_1 D) x = Inr h1" and
    2: "Sequential (layer_2 D) h1 = Inr h2" and
    3: "Sequential (layer_3 D) h2 = Inr h3" and
    4: "Sequential (layer_4 D) h3 = Inr h4" and
    5: "apply_layer (last_conv D) h4 = Inr y"
    by (auto simp: forward_def bind_r_eq_Inr clone_def ConvNormAct_forward_def)
  from Sequential_grad[OF 1, of g] obtain g1 where
    k1: "Sequential (layer_1 D) (x\<lparr>grad_src := g\<rparr>) = Inr (h1\<lparr>grad_src := g1\<rparr>)" by blast
  from Sequential_grad[OF 2, of g1] obtain g2 where
    k2: "Sequential (layer_2 D) (h1\<lparr>grad_src := g1\<rparr>) = Inr (h2\<lparr>grad_src := g2\<rparr>)" by blast
  from Sequential_grad[OF 3, of g2] obtain g3 where
    k3: "Sequential (layer_3 D) (h2\<lparr>grad_src := g2\<rparr>) = Inr (h3\<lparr>grad_src := g3\<rparr>)" by blast
  from Sequential_grad[OF 4, of g3] obtain g4 where
    k4: "Sequential (layer_4 D) (h3\<lparr>grad_src := g3\<rparr>) = Inr (h4\<lparr>grad_src := g4\<rparr>)" by blast
  from apply_layer_grad[OF 5, of g4] obtain g5 where
    k5: "apply_layer (last_conv D) (h4\<lparr>grad_src := g4\<rparr>) = Inr (y\<lparr>grad_src := g5\<rparr>)" by blast
  have "forward D (x\<lparr>grad_src := g\<rparr>) = Inr (y\<lparr>grad_src := g5\<rparr>)"
    unfolding forward_def clone_def ConvNormAct_forward_def
    by (simp only: k1 k2 k3 k4 k5 bind_r_Inr)
  then show ?thesis by blast
qed

lemma forward_detach:
  assumes "forward D (detach x) = Inr y"
  shows "\<exists>y'. forward D x = Inr y' \<and> shape y' = shape y \<and> data y' = data y"
proof -
  have x: "(detach x)\<lparr>grad_src := grad_src x\<rparr> = x" by (simp add: detach_def)
  from forward_grad[OF assms, of "grad_src x"] obtain g' where
    "forward D x = Inr (y\<lparr>grad_src := g'\<rparr>)" unfolding x by blast
  then show ?thesis by simp
qed

subsection \<open>The interpolation mask away from the CUDA device\<close>

lemma interp_window_off_cuda:
  assumes "i < t" and "device inp \<noteq> CUDA"
  shows "interp_window (clone (cuda (eye t))) inp x i = Inl RuntimeError"
proof -
  from mask_row[OF assms(1)] obtain m where
    r: "bind_r (select0 (clone (cuda (eye t))) i) (\<lambda>row. view row [Some 1, None, Some 1, Some 1, Some 1]) = Inr m"
    and mm: "meta m [1, t, 1, 1, 1] CUDA {}"
    by blast
  from r obtain row where r1: "select0 (clone (cuda (eye t))) i = Inr row"
    and r2: "view row [Some 1, None, Some 1, Some 1, Some 1] = Inr m"
    by (auto simp: bind_r_eq_Inr)
  have dm: "device (rsub 1 m) = CUDA" using mm by (simp add: meta_def rsub_def)
  have 3: "mul (rsub 1 m) (clone inp) = Inl RuntimeError"
    using dm assms(2) by (simp add: mul_def binop_def clone_def)
  show ?thesis
    unfolding interp_window_def Let_def
    by (simp only: r1[unfolded clone_def] r2 bind_r_Inr clone_def 3[unfolded clone_def] bind_r_Inl)
qed

lemma rearrange_seq_interp_off_cuda:
  assumes "shape fake = [b, t, c, h, w]" and "0 < t" and "device inp \<noteq> CUDA"
  shows "rearrange_seq_interp r fake inp only = Inl RuntimeError"
proof -
  have u: "[0..<t] = 0 # [Suc 0..<t]" using assms(2) by (simp add: upt_conv_Cons)
  have "collect (interp_window (clone (cuda (eye t))) inp fake) [0..<t] [] = Inl RuntimeError"
    unfolding u using interp_window_off_cuda[OF assms(2,3), of fake] by simp
  then show ?thesis
    unfolding rearrange_seq_interp_def Let_def by (simp add: assms(1))
qed

section \<open>The claims\<close>

text \<open>
  C5 (corrected). As stated the claim fails: with \<open>irregular\<close> set and \<open>extrap\<close> clear the
  sequence length is the whole \<open>sample_size\<close>, not half of it plus or minus one. For
  \<open>sample_size = 10\<close> it is 10, while half is 5.
\<close>

theorem seq_len_irregular_not_half_plus_minus_one:
  "seq_len_of \<lparr>sample_size = 10, irregular = True, extrap = False, lr = 1 / 1000\<rparr> = 10
   \<and> seq_len_of \<lparr>sample_size = 10, irregular = True, extrap = False, lr = 1 / 1000\<rparr> \<noteq> 10 div 2 + 1
   \<and> seq_len_of \<lparr>sample_size = 10, irregular = True, extrap = False, lr = 1 / 1000\<rparr> \<noteq> 10 div 2 - 1
   \<and> seq_len_of \<lparr>sample_size = 10, irregular = True, extrap = False, lr = 1 / 1000\<rparr> \<noteq> 10 div 2"
  by (simp add: seq_len_of_def)

text \<open>
  C5 as amended. create_netD returns exactly when the derived sequence length and the
  learning rate are not negative. The sequence length is \<open>sample_size // 2 + 1\<close> in
  extrapolation mode, the whole \<open>sample_size\<close> in irregular mode without extrapolation,
  and \<open>sample_size // 2\<close> otherwise. The first network is image-level (\<open>seq\<close> clear, 3
  input channels), the second sequence-level (\<open>seq\<close> set, \<open>3 * seq_len\<close> input channels),
  and the one optimizer holds the parameters of the first followed by those of the second.
\<close>

theorem create_netD_builds:
  "((\<exists>r. create_netD init pid cfg dev = Inr r) = (0 \<le> seq_len_of cfg \<and> 0 \<le> lr cfg))
   \<and> (\<forall>img sq optz. create_netD init pid cfg dev = Inr (img, sq, optz) \<longrightarrow>
         seq_len_of cfg = (if extrap cfg then sample_size cfg div 2 + 1
                           else if irregular cfg then sample_size cfg else sample_size cfg div 2)
       \<and> in_channels img = 3 \<and> \<not> seq img \<and> is_extrap img = extrap cfg \<and> self_device img = dev
       \<and> in_channels sq = nat (3 * seq_len_of cfg) \<and> seq sq \<and> is_extrap sq = extrap cfg
       \<and> self_device sq = dev
       \<and> opt_params optz = parameters img @ parameters sq \<and> opt_lr optz = lr cfg)"
proof (intro conjI allI impI)
  show "(\<exists>r. create_netD init pid cfg dev = Inr r) = (0 \<le> seq_len_of cfg \<and> 0 \<le> lr cfg)"
  proof
    assume "\<exists>r. create_netD init pid cfg dev = Inr r"
    then show "0 \<le> seq_len_of cfg \<and> 0 \<le> lr cfg"
      by (auto simp: create_netD_def Let_def bind_r_eq_Inr Adamax_def Discriminator_def split: if_splits)
  next
    assume a: "0 \<le> seq_len_of cfg \<and> 0 \<le> lr cfg"
    obtain D1 p1 where d1: "Discriminator init pid 3 dev False (extrap cfg) = Inr (D1, p1)"
      using Discriminator_ok[of 3] by force
    obtain D2 p2 where d2: "Discriminator init p1 (3 * seq_len_of cfg) dev True (extrap cfg) = Inr (D2, p2)"
      using Discriminator_ok[of "3 * seq_len_of cfg"] a by force
    show "\<exists>r. create_netD init pid cfg dev = Inr r"
      using a d1 d2 parameters_nonempty[OF d1] by (simp add: create_netD_def Let_def Adamax_def)
  qed
next
  fix img sq optz assume c: "create_netD init pid cfg dev = Inr (img, sq, optz)"
  show "seq_len_of cfg = (if extrap cfg then sample_size cfg div 2 + 1
                           else if irregular cfg then sample_size cfg else sample_size cfg div 2)"
    by (rule seq_len_of_eq)
  from c obtain D1 p1 D2 p2 where
    d1: "Discriminator init pid 3 dev False (extrap cfg) = Inr (D1, p1)" and
    d2: "Discriminator init p1 (3 * seq_len_of cfg) dev True (extrap cfg) = Inr (D2, p2)" and
    i: "img = to_D dev D1" and s: "sq = to_D dev D2" and
    o: "Adamax (parameters (to_D dev D1) @ parameters (to_D dev D2)) (lr cfg) = Inr optz"
    by (auto simp: create_netD_def Let_def bind_r_eq_Inr)
  from Discriminator_fields[OF d1, of dev] i
  show "in_channels img = 3" "\<not> seq img" "is_extrap img = extrap cfg" "self_device img = dev" by simp_all
  from Discriminator_fields[OF d2, of dev] s
  show "in_channels sq = nat (3 * seq_len_of cfg)" "seq sq" "is_extrap sq = extrap cfg" "self_device sq = dev"
    by simp_all
  from o i s show "opt_params optz = parameters img @ parameters sq" "opt_lr optz = lr cfg"
    by (auto simp: Adamax_def split: if_splits)
qed

theorem create_netD_builds_witness:
  "\<exists>img sq optz.
     create_netD (\<lambda>p k. 0) 0 \<lparr>sample_size = 10, irregular = True, extrap = False, lr = 1 / 1000\<rparr> CUDA
       = Inr (img, sq, optz)
     \<and> in_channels img = 3 \<and> \<not> seq img \<and> in_channels sq = 30 \<and> seq sq
     \<and> opt_params optz = parameters img @ parameters sq"
proof -
  let ?cfg = "\<lparr>sample_size = 10, irregular = True, extrap = False, lr = 1 / 1000\<rparr>"
  note T = create_netD_builds[of "\<lambda>p k. 0" 0 ?cfg CUDA]
  have sl: "seq_len_of ?cfg = 10" by (simp add: seq_len_of_def)
  from T sl have "\<exists>r. create_netD (\<lambda>p k. 0) 0 ?cfg CUDA = Inr r" by simp
  then obtain img sq optz where c: "create_netD (\<lambda>p k. 0) 0 ?cfg CUDA = Inr (img, sq, optz)"
    by (metis prod_cases3)
  from T c sl have "in_channels img = 3 \<and> \<not> seq img \<and> in_channels sq = 30 \<and> seq sq
     \<and> opt_params optz = parameters img @ parameters sq" by simp
  with c show ?thesis by blast
qed

text \<open>
  C9. Whatever string other than \<open>'relu'\<close> and \<open>'lrelu'\<close> is passed as \<open>act_type\<close>, the
  constructor returns a module (it has no failing branch) whose layers are the
  convolution and the instance normalisation and nothing else, and whose forward is
  the convolution followed by the normalisation.
\<close>

theorem ConvNormAct_unknown_act_type:
  assumes "act_type \<noteq> ''relu''" and "act_type \<noteq> ''lrelu''"
  shows "ConvNormAct init pid in_ch out_ch k s p act_type =
           ([Conv2d in_ch out_ch k s p (new_param init pid [out_ch, in_ch, k, k])
                (Some (new_param init (pid + 1) [out_ch])), InstanceNorm2d out_ch], pid + 2)
         \<and> ConvNormAct_forward (fst (ConvNormAct init pid in_ch out_ch k s p act_type)) x =
             bind_r (conv2d in_ch out_ch k s p (new_param init pid [out_ch, in_ch, k, k])
                       (Some (new_param init (pid + 1) [out_ch])) x) instance_norm"
  using assms
  by (simp add: ConvNormAct_def Conv2d_new_def ConvNormAct_forward_def bind_r_def split: sum.splits)

theorem ConvNormAct_unknown_act_type_witness:
  "ConvNormAct (\<lambda>p k. 0) 0 64 128 4 2 1 ''tanh'' =
     ([Conv2d 64 128 4 2 1 (new_param (\<lambda>p k. 0) 0 [128, 64, 4, 4])
         (Some (new_param (\<lambda>p k. 0) (0 + 1) [128])), InstanceNorm2d 128], 0 + 2)
   \<and> ConvNormAct_forward (fst (ConvNormAct (\<lambda>p k. 0) 0 64 128 4 2 1 ''tanh'')) (zeros [1, 64, 8, 8] CPU) =
       bind_r (conv2d 64 128 4 2 1 (new_param (\<lambda>p k. 0) 0 [128, 64, 4, 4])
                 (Some (new_param (\<lambda>p k. 0) (0 + 1) [128])) (zeros [1, 64, 8, 8] CPU)) instance_norm"
  by (rule ConvNormAct_unknown_act_type) simp_all

text \<open>
  C6. For a Discriminator as its constructor builds it, moved to device \<open>d\<close>, and a
  non-empty batch \<open>(n, c, h, w)\<close>: the forward pass (four stages and the final
  convolution) returns exactly when \<open>c\<close> is the channel count the network was built for,
  the batch is on device \<open>d\<close>, and both sides are at least 8 and not both below 16 (the
  normalisation refuses a single-element plane). What it returns has 64 channels and the
  sides the five convolutions leave: kernel 4 throughout, strides 2, 2, 2, 1, 1,
  paddings 1, 1, 1, 2, 2, which is \<open>h div 8 + 2\<close> by \<open>w div 8 + 2\<close>.
\<close>

theorem forward_output_shape:
  assumes "Discriminator init pid ic dv sq ex = Inr (D0, p)"
      and "shape x = [n, c, h, w]" and "0 < n"
  shows "((\<exists>y. forward (to_D d D0) x = Inr y) =
            (c = nat ic \<and> device x = d \<and> 8 \<le> h \<and> 8 \<le> w \<and> (16 \<le> h \<or> 16 \<le> w)))
       \<and> (\<forall>y. forward (to_D d D0) x = Inr y \<longrightarrow>
            shape y = [n, 64,
               conv_out (conv_out (conv_out (conv_out (conv_out h 4 2 1) 4 2 1) 4 2 1) 4 1 2) 4 1 2,
               conv_out (conv_out (conv_out (conv_out (conv_out w 4 2 1) 4 2 1) 4 2 1) 4 1 2) 4 1 2]
          \<and> shape y = [n, 64, h div 8 + 2, w div 8 + 2])"
proof (intro conjI allI impI)
  show "(\<exists>y. forward (to_D d D0) x = Inr y) =
            (c = nat ic \<and> device x = d \<and> 8 \<le> h \<and> 8 \<le> w \<and> (16 \<le> h \<or> 16 \<le> w))"
  proof
    assume "\<exists>y. forward (to_D d D0) x = Inr y"
    then obtain y where "forward (to_D d D0) x = Inr y" ..
    from forward_Inr[OF assms(1) this] assms(2)
    show "c = nat ic \<and> device x = d \<and> 8 \<le> h \<and> 8 \<le> w \<and> (16 \<le> h \<or> 16 \<le> w)" by auto
  next
    assume a: "c = nat ic \<and> device x = d \<and> 8 \<le> h \<and> 8 \<le> w \<and> (16 \<le> h \<or> 16 \<le> w)"
    then have s: "shape x = [n, nat ic, h, w]" using assms(2) by simp
    from forward_ok[OF assms(1) s] a show "\<exists>y. forward (to_D d D0) x = Inr y" by blast
  qed
next
  fix y assume a: "forward (to_D d D0) x = Inr y"
  from forward_Inr[OF assms(1) a] assms(2) have
    hw: "8 \<le> h" "8 \<le> w" and s: "shape y = [n, 64, h div 8 + 2, w div 8 + 2]"
    by (auto simp: meta_def)
  show "shape y = [n, 64, h div 8 + 2, w div 8 + 2]" by (rule s)
  show "shape y = [n, 64,
               conv_out (conv_out (conv_out (conv_out (conv_out h 4 2 1) 4 2 1) 4 2 1) 4 1 2) 4 1 2,
               conv_out (conv_out (conv_out (conv_out (conv_out w 4 2 1) 4 2 1) 4 2 1) 4 1 2) 4 1 2]"
    unfolding conv_stack[OF hw(1)] conv_stack[OF hw(2)] by (rule s)
qed

theorem forward_output_shape_witness:
  "\<exists>D0 p y. Discriminator (\<lambda>p k. 0) 0 3 CUDA False True = Inr (D0, p)
     \<and> forward (to_D CUDA D0) (zeros [2, 3, 16, 24] CUDA) = Inr y
     \<and> shape y = [2, 64, 4, 5]"
proof -
  obtain D0 p where b: "Discriminator (\<lambda>p k. 0) 0 3 CUDA False True = Inr (D0, p)"
    using Discriminator_ok[of 3] by force
  have s: "shape (zeros [2, 3, 16, 24] CUDA) = [2, 3, 16, 24]" by simp
  have n: "0 < (2::nat)" by simp
  note T = forward_output_shape[OF b s n, of CUDA]
  have "\<exists>y. forward (to_D CUDA D0) (zeros [2, 3, 16, 24] CUDA) = Inr y"
    using T by simp
  then obtain y where f: "forward (to_D CUDA D0) (zeros [2, 3, 16, 24] CUDA) = Inr y" by blast
  have "shape y = [2, 64,
               conv_out (conv_out (conv_out (conv_out (conv_out 16 4 2 1) 4 2 1) 4 2 1) 4 1 2) 4 1 2,
               conv_out (conv_out (conv_out (conv_out (conv_out 24 4 2 1) 4 2 1) 4 2 1) 4 1 2) 4 1 2]
          \<and> shape y = [2, 64, 16 div 8 + 2, 24 div 8 + 2]"
    using T f by blast
  then have "shape y = [2, 64, 16 div 8 + 2, 24 div 8 + 2]" by (rule conjunct2)
  then have "shape y = [2, 64, 4, 5]" by simp
  with b f show ?thesis by blast
qed

text \<open>
  C3. Take \<open>fake\<close> of shape \<open>(b, t, c, h, w)\<close> and a conditioning tensor \<open>input_real\<close> of
  shape \<open>(b, tin, c, h, w)\<close> on the same device, with at least one time step, at most
  \<open>tin + 1\<close> of them, and no empty batch or side (the shapes on which the library's
  concatenation and view succeed). Then rearrange_seq returns: window \<open>i\<close> is the frames
  \<open>i, ..., tin - 1\<close> of \<open>input_real\<close> followed by the frames \<open>0, ..., i\<close> of the target,
  the \<open>t\<close> windows are stacked along the batch dimension (row \<open>i * b + bb\<close> is batch entry
  \<open>bb\<close> of window \<open>i\<close>), so the batch dimension is \<open>b * t\<close>, and time is folded into the
  channels (frame \<open>f\<close>, channel \<open>cc\<close> is channel \<open>f * c + cc\<close>). With \<open>only_fake\<close> the result
  is the fake tensor alone, otherwise the pair built the same way from \<open>real\<close> and \<open>fake\<close>.
\<close>

theorem rearrange_seq_windows:
  assumes "shape fake = [b, t, c, h, w]" and "shape rl = [b, t, c, h, w]"
      and "shape input_real = [b, tin, c, h, w]"
      and "device input_real = device fake" and "device rl = device fake"
      and "0 < t" and "t \<le> tin + 1" and "0 < b" and "0 < h" and "0 < w"
  shows "(\<exists>out. rearrange_seq r fake input_real True = Inr (FakeOnly out)
            \<and> shape out = [b * t, (tin + 1) * c, h, w]
            \<and> (\<forall>i<t. \<forall>bb<b. \<forall>f<tin + 1. \<forall>cc<c. \<forall>y<h. \<forall>xx<w.
                 tget out [i * b + bb, f * c + cc, y, xx] =
                   (if f < tin - i then tget input_real [bb, i + f, cc, y, xx]
                    else tget fake [bb, f - (tin - i), cc, y, xx])))
       \<and> (\<exists>ro fo. rearrange_seq (Some rl) fake input_real False = Inr (RealFake ro fo)
            \<and> shape ro = [b * t, (tin + 1) * c, h, w] \<and> shape fo = [b * t, (tin + 1) * c, h, w]
            \<and> (\<forall>i<t. \<forall>bb<b. \<forall>f<tin + 1. \<forall>cc<c. \<forall>y<h. \<forall>xx<w.
                 tget ro [i * b + bb, f * c + cc, y, xx] =
                   (if f < tin - i then tget input_real [bb, i + f, cc, y, xx]
                    else tget rl [bb, f - (tin - i), cc, y, xx])
               \<and> tget fo [i * b + bb, f * c + cc, y, xx] =
                   (if f < tin - i then tget input_real [bb, i + f, cc, y, xx]
                    else tget fake [bb, f - (tin - i), cc, y, xx])))"
proof
  from rearrange_seq_fake_only[OF assms(1,3,4,6-10), of r] obtain out where
    o: "rearrange_seq r fake input_real True = Inr (FakeOnly out)" and
    m: "meta out [b * t, (tin + 1) * c, h, w] (device fake) (grad_src input_real \<union> grad_src fake)" and
    el: "\<forall>i<t. \<forall>bb<b. \<forall>f<tin + 1. \<forall>cc<c. \<forall>y<h. \<forall>xx<w.
                 tget out [i * b + bb, f * c + cc, y, xx] =
                   (if f < tin - i then tget input_real [bb, i + f, cc, y, xx]
                    else tget fake [bb, f - (tin - i), cc, y, xx])"
    by blast
  have s: "shape out = [b * t, (tin + 1) * c, h, w]" using m by (simp add: meta_def)
  from o s el
  show "\<exists>out. rearrange_seq r fake input_real True = Inr (FakeOnly out)
            \<and> shape out = [b * t, (tin + 1) * c, h, w]
            \<and> (\<forall>i<t. \<forall>bb<b. \<forall>f<tin + 1. \<forall>cc<c. \<forall>y<h. \<forall>xx<w.
                 tget out [i * b + bb, f * c + cc, y, xx] =
                   (if f < tin - i then tget input_real [bb, i + f, cc, y, xx]
                    else tget fake [bb, f - (tin - i), cc, y, xx]))"
    by (intro exI[of _ out] conjI)
next
  from rearrange_seq_real_fake[OF assms] obtain ro fo where
    o: "rearrange_seq (Some rl) fake input_real False = Inr (RealFake ro fo)" and
    mr: "meta ro [b * t, (tin + 1) * c, h, w] (device fake) (grad_src input_real \<union> grad_src rl)" and
    mf: "meta fo [b * t, (tin + 1) * c, h, w] (device fake) (grad_src input_real \<union> grad_src fake)" and
    el: "\<forall>i<t. \<forall>bb<b. \<forall>f<tin + 1. \<forall>cc<c. \<forall>y<h. \<forall>xx<w.
                 tget ro [i * b + bb, f * c + cc, y, xx] =
                   (if f < tin - i then tget input_real [bb, i + f, cc, y, xx]
                    else tget rl [bb, f - (tin - i), cc, y, xx])
               \<and> tget fo [i * b + bb, f * c + cc, y, xx] =
                   (if f < tin - i then tget input_real [bb, i + f, cc, y, xx]
                    else tget fake [bb, f - (tin - i), cc, y, xx])"
    by blast
  have s: "shape ro = [b * t, (tin + 1) * c, h, w]" "shape fo = [b * t, (tin + 1) * c, h, w]"
    using mr mf by (simp_all add: meta_def)
  from o s el
  show "\<exists>ro fo. rearrange_seq (Some rl) fake input_real False = Inr (RealFake ro fo)
            \<and> shape ro = [b * t, (tin + 1) * c, h, w] \<and> shape fo = [b * t, (tin + 1) * c, h, w]
            \<and> (\<forall>i<t. \<forall>bb<b. \<forall>f<tin + 1. \<forall>cc<c. \<forall>y<h. \<forall>xx<w.
                 tget ro [i * b + bb, f * c + cc, y, xx] =
                   (if f < tin - i then tget input_real [bb, i + f, cc, y, xx]
                    else tget rl [bb, f - (tin - i), cc, y, xx])
               \<and> tget fo [i * b + bb, f * c + cc, y, xx] =
                   (if f < tin - i then tget input_real [bb, i + f, cc, y, xx]
                    else tget fake [bb, f - (tin - i), cc, y, xx]))"
    by (intro exI[of _ ro] exI[of _ fo] conjI)
qed

theorem rearrange_seq_windows_witness:
  "(\<exists>out. rearrange_seq None
             \<lparr>shape = [1, 2, 1, 1, 1], data = [1, 2], device = CPU, grad_src = {}\<rparr>
             \<lparr>shape = [1, 2, 1, 1, 1], data = [10, 20], device = CPU, grad_src = {}\<rparr> True
           = Inr (FakeOnly out)
      \<and> shape out = [2, 3, 1, 1]
      \<and> tget out [0, 0, 0, 0] = 10 \<and> tget out [0, 1, 0, 0] = 20 \<and> tget out [0, 2, 0, 0] = 1
      \<and> tget out [1, 0, 0, 0] = 20 \<and> tget out [1, 1, 0, 0] = 1 \<and> tget out [1, 2, 0, 0] = 2)
   \<and> (\<exists>ro fo. rearrange_seq
             (Some \<lparr>shape = [1, 2, 1, 1, 1], data = [5, 6], device = CPU, grad_src = {}\<rparr>)
             \<lparr>shape = [1, 2, 1, 1, 1], data = [1, 2], device = CPU, grad_src = {}\<rparr>
             \<lparr>shape = [1, 2, 1, 1, 1], data = [10, 20], device = CPU, grad_src = {}\<rparr> False
           = Inr (RealFake ro fo)
      \<and> shape ro = [2, 3, 1, 1] \<and> shape fo = [2, 3, 1, 1]
      \<and> tget ro [1, 0, 0, 0] = 20 \<and> tget ro [1, 1, 0, 0] = 5 \<and> tget ro [1, 2, 0, 0] = 6
      \<and> tget fo [1, 0, 0, 0] = 20 \<and> tget fo [1, 1, 0, 0] = 1 \<and> tget fo [1, 2, 0, 0] = 2)"
proof -
  let ?fake = "\<lparr>shape = [1, 2, 1, 1, 1], data = [1, 2], device = CPU, grad_src = {}\<rparr>"
  let ?rl = "\<lparr>shape = [1, 2, 1, 1, 1], data = [5, 6], device = CPU, grad_src = {}\<rparr>"
  let ?inp = "\<lparr>shape = [1, 2, 1, 1, 1], data = [10, 20], device = CPU, grad_src = {}\<rparr>"
  have T: "(\<exists>out. rearrange_seq None ?fake ?inp True = Inr (FakeOnly out)
            \<and> shape out = [1 * 2, (2 + 1) * 1, 1, 1]
            \<and> (\<forall>i<2. \<forall>bb<1. \<forall>f<2 + 1. \<forall>cc<1. \<forall>y<1. \<forall>xx<1.
                 tget out [i * 1 + bb, f * 1 + cc, y, xx] =
                   (if f < 2 - i then tget ?inp [bb, i + f, cc, y, xx]
                    else tget ?fake [bb, f - (2 - i), cc, y, xx])))
       \<and> (\<exists>ro fo. rearrange_seq (Some ?rl) ?fake ?inp False = Inr (RealFake ro fo)
            \<and> shape ro = [1 * 2, (2 + 1) * 1, 1, 1] \<and> shape fo = [1 * 2, (2 + 1) * 1, 1, 1]
            \<and> (\<forall>i<2. \<forall>bb<1. \<forall>f<2 + 1. \<forall>cc<1. \<forall>y<1. \<forall>xx<1.
                 tget ro [i * 1 + bb, f * 1 + cc, y, xx] =
                   (if f < 2 - i then tget ?inp [bb, i + f, cc, y, xx]
                    else tget ?rl [bb, f - (2 - i), cc, y, xx])
               \<and> tget fo [i * 1 + bb, f * 1 + cc, y, xx] =
                   (if f < 2 - i then tget ?inp [bb, i + f, cc, y, xx]
                    else tget ?fake [bb, f - (2 - i), cc, y, xx])))"
    by (rule rearrange_seq_windows) simp_all
  from T obtain out where
    o: "rearrange_seq None ?fake ?inp True = Inr (FakeOnly out)" and
    s: "shape out = [1 * 2, (2 + 1) * 1, 1, 1]" and
    el: "\<forall>i<2. \<forall>bb<1. \<forall>f<2 + 1. \<forall>cc<1. \<forall>y<1. \<forall>xx<1.
                 tget out [i * 1 + bb, f * 1 + cc, y, xx] =
                   (if f < 2 - i then tget ?inp [bb, i + f, cc, y, xx]
                    else tget ?fake [bb, f - (2 - i), cc, y, xx])"
    by (elim conjE exE)
  from T obtain ro fo where
    o2: "rearrange_seq (Some ?rl) ?fake ?inp False = Inr (RealFake ro fo)" and
    s2: "shape ro = [1 * 2, (2 + 1) * 1, 1, 1]" "shape fo = [1 * 2, (2 + 1) * 1, 1, 1]" and
    el2: "\<forall>i<2. \<forall>bb<1. \<forall>f<2 + 1. \<forall>cc<1. \<forall>y<1. \<forall>xx<1.
                 tget ro [i * 1 + bb, f * 1 + cc, y, xx] =
                   (if f < 2 - i then tget ?inp [bb, i + f, cc, y, xx]
                    else tget ?rl [bb, f - (2 - i), cc, y, xx])
               \<and> tget fo [i * 1 + bb, f * 1 + cc, y, xx] =
                   (if f < 2 - i then tget ?inp [bb, i + f, cc, y, xx]
                    else tget ?fake [bb, f - (2 - i), cc, y, xx])"
    by (elim conjE exE)
  have e: "tget out [0, 0, 0, 0] = 10" "tget out [0, 1, 0, 0] = 20" "tget out [0, 2, 0, 0] = 1"
          "tget out [1, 0, 0, 0] = 20" "tget out [1, 1, 0, 0] = 1" "tget out [1, 2, 0, 0] = 2"
    using el[rule_format, of 0 0 0 0 0 0] el[rule_format, of 0 0 1 0 0 0] el[rule_format, of 0 0 2 0 0 0]
          el[rule_format, of 1 0 0 0 0 0] el[rule_format, of 1 0 1 0 0 0] el[rule_format, of 1 0 2 0 0 0]
    by (simp_all add: tget_def)
  have e2: "tget ro [1, 0, 0, 0] = 20" "tget ro [1, 1, 0, 0] = 5" "tget ro [1, 2, 0, 0] = 6"
           "tget fo [1, 0, 0, 0] = 20" "tget fo [1, 1, 0, 0] = 1" "tget fo [1, 2, 0, 0] = 2"
    using el2[rule_format, of 1 0 0 0 0 0] el2[rule_format, of 1 0 1 0 0 0] el2[rule_format, of 1 0 2 0 0 0]
    by (simp_all add: tget_def)
  from o s e o2 s2 e2 show ?thesis by simp
qed

text \<open>
  C8. With \<open>b = 2\<close>, \<open>t = 3\<close>, \<open>c = 3\<close>, \<open>h = w = 8\<close> and three conditioning frames,
  rearrange_seq with \<open>only_fake\<close> returns a tensor of shape \<open>(6, 12, 8, 8)\<close>; the window
  built at step \<open>i\<close> has \<open>(3 - i) + (i + 1)\<close> frames of 3 channels, which is 12 channels
  for each \<open>i\<close> in 0, 1, 2.
\<close>

theorem rearrange_seq_scenario:
  assumes "shape fake = [2, 3, 3, 8, 8]" and "shape input_real = [2, 3, 3, 8, 8]"
      and "device input_real = device fake"
  shows "\<exists>out. rearrange_seq r fake input_real True = Inr (FakeOnly out)
           \<and> shape out = [6, 12, 8, 8]
           \<and> (\<forall>i<3. \<exists>wd. seq_window input_real fake i = Inr wd
                  \<and> shape wd = [2, (3 - i) + (i + 1), 3, 8, 8]
                  \<and> 3 * ((3 - i) + (i + 1)) = shape out ! 1)"
proof -
  have "\<exists>out. rearrange_seq r fake input_real True = Inr (FakeOnly out)
           \<and> meta out [2 * 3, (3 + 1) * 3, 8, 8] (device fake) (grad_src input_real \<union> grad_src fake)
           \<and> (\<forall>i<3. \<forall>bb<2. \<forall>f<3 + 1. \<forall>cc<3. \<forall>y<8. \<forall>xx<8.
                 tget out [i * 2 + bb, f * 3 + cc, y, xx] =
                   (if f < 3 - i then tget input_real [bb, i + f, cc, y, xx]
                    else tget fake [bb, f - (3 - i), cc, y, xx]))"
    by (rule rearrange_seq_fake_only[OF assms(1,2,3)]) simp_all
  then obtain out where
    o: "rearrange_seq r fake input_real True = Inr (FakeOnly out)" and
    m: "meta out [2 * 3, (3 + 1) * 3, 8, 8] (device fake) (grad_src input_real \<union> grad_src fake)"
    by (elim exE conjE)
  have s: "shape out = [6, 12, 8, 8]" using m by (simp add: meta_def)
  have w: "\<forall>i<3. \<exists>wd. seq_window input_real fake i = Inr wd
                  \<and> shape wd = [2, (3 - i) + (i + 1), 3, 8, 8]
                  \<and> 3 * ((3 - i) + (i + 1)) = shape out ! 1"
  proof (intro allI impI)
    fix i :: nat assume i: "i < 3"
    then have i': "i \<le> 3" by simp
    from seq_window_ok[OF assms(2,1,3) i i'] obtain wd where
      "seq_window input_real fake i = Inr wd" "shape wd = [2, (3 - i) + (i + 1), 3, 8, 8]"
      by (auto simp: meta_def)
    moreover have "3 * ((3 - i) + (i + 1)) = shape out ! 1" using i s by simp
    ultimately show "\<exists>wd. seq_window input_real fake i = Inr wd
                  \<and> shape wd = [2, (3 - i) + (i + 1), 3, 8, 8]
                  \<and> 3 * ((3 - i) + (i + 1)) = shape out ! 1" by blast
  qed
  from o s w show ?thesis by blast
qed

theorem rearrange_seq_scenario_witness:
  "\<exists>out. rearrange_seq None (zeros [2, 3, 3, 8, 8] CUDA) (zeros [2, 3, 3, 8, 8] CUDA) True = Inr (FakeOnly out)
     \<and> shape out = [6, 12, 8, 8]"
proof -
  have "\<exists>out. rearrange_seq None (zeros [2, 3, 3, 8, 8] CUDA) (zeros [2, 3, 3, 8, 8] CUDA) True = Inr (FakeOnly out)
           \<and> shape out = [6, 12, 8, 8]
           \<and> (\<forall>i<3. \<exists>wd. seq_window (zeros [2, 3, 3, 8, 8] CUDA) (zeros [2, 3, 3, 8, 8] CUDA) i = Inr wd
                  \<and> shape wd = [2, (3 - i) + (i + 1), 3, 8, 8]
                  \<and> 3 * ((3 - i) + (i + 1)) = shape out ! 1)"
    by (rule rearrange_seq_scenario) simp_all
  then show ?thesis by (elim conjE exE) (intro conjI exI, assumption+)
qed






text \<open>
  C2. For a Discriminator as its constructor builds it (moved to device \<open>d\<close>):
  netG_adv_loss returns exactly when \<open>fake\<close> can be rearranged (sequence mode) or
  flattened (otherwise), the network accepts it, and the module sits on its
  \<open>self.device\<close>; it returns \<open>mean((pred_fake - 1)^2)\<close>. The tensor handed to the network
  is the one netD_adv_loss builds from \<open>fake\<close> whenever that one returns, and it is not
  detached: every autograd leaf of \<open>fake\<close> is in the history of the loss.
\<close>

theorem netG_adv_loss_value:
  assumes "Discriminator init pid ic dv sq ex = Inr (D0, p)"
  shows "((netG_adv_loss (to_D d D0) fake input_real = Inr l) =
           (\<exists>f' pf. netG_inputs (to_D d D0) fake input_real = Inr f'
              \<and> forward (to_D d D0) f' = Inr pf \<and> d = dv
              \<and> l = \<lparr>lval = (if data pf = [] then NaN
                             else Val ((\<Sum>v\<leftarrow>data pf. (v - 1) ^ 2) / real (length (data pf)))),
                      ldevice = d, lgrad_src = grad_src pf\<rparr>))
       \<and> (\<forall>rl r' f'. netD_inputs (to_D d D0) rl fake input_real = Inr (r', f')
              \<longrightarrow> netG_inputs (to_D d D0) fake input_real = Inr f')
       \<and> (netG_adv_loss (to_D d D0) fake input_real = Inr l \<longrightarrow> grad_src fake \<subseteq> lgrad_src l)"
proof (intro conjI allI impI)
  show "(netG_adv_loss (to_D d D0) fake input_real = Inr l) =
           (\<exists>f' pf. netG_inputs (to_D d D0) fake input_real = Inr f'
              \<and> forward (to_D d D0) f' = Inr pf \<and> d = dv
              \<and> l = \<lparr>lval = (if data pf = [] then NaN
                             else Val ((\<Sum>v\<leftarrow>data pf. (v - 1) ^ 2) / real (length (data pf)))),
                      ldevice = d, lgrad_src = grad_src pf\<rparr>)"
    by (rule netG_adv_loss_built[OF assms])
next
  fix rl r' f' assume "netD_inputs (to_D d D0) rl fake input_real = Inr (r', f')"
  from netD_inputs_Inr[OF this] show "netG_inputs (to_D d D0) fake input_real = Inr f'" by simp
next
  assume "netG_adv_loss (to_D d D0) fake input_real = Inr l"
  then obtain f' pf where i: "netG_inputs (to_D d D0) fake input_real = Inr f'"
    and f: "forward (to_D d D0) f' = Inr pf" and l: "lgrad_src l = grad_src pf"
    unfolding netG_adv_loss_built[OF assms] by auto
  from forward_Inr[OF assms f] have "grad_src f' \<subseteq> grad_src pf" by (auto simp: meta_def)
  with netG_inputs_Inr[OF i] l show "grad_src fake \<subseteq> lgrad_src l" by auto
qed

theorem netG_adv_loss_value_witness:
  "\<exists>D0 p l. Discriminator (\<lambda>p k. 0) 0 3 CPU False True = Inr (D0, p)
     \<and> netG_adv_loss (to_D CPU D0) ((zeros [1, 1, 3, 16, 16] CPU)\<lparr>grad_src := {200}\<rparr>)
         (zeros [1, 1, 3, 16, 16] CPU) = Inr l
     \<and> 200 \<in> lgrad_src l"
proof -
  let ?z = "zeros [1, 1, 3, 16, 16] CPU"
  let ?f = "?z\<lparr>grad_src := {200}\<rparr>"
  obtain D0 p where b: "Discriminator (\<lambda>p k. 0) 0 3 CPU False True = Inr (D0, p)"
    using Discriminator_ok[of 3] by force
  from netG_adv_loss_flat_ok[OF b, of ?f 1 1 16 16 ?z] obtain l where
    l: "netG_adv_loss (to_D CPU D0) ?f ?z = Inr l" by auto
  from netG_adv_loss_value[OF b, of CPU ?f ?z l] l have "grad_src ?f \<subseteq> lgrad_src l" by blast
  then have "200 \<in> lgrad_src l" by simp
  with b l show ?thesis by blast
qed

text \<open>
  C7. Autograd is modelled by the set of leaves a tensor's history reaches. For a
  Discriminator as its constructor builds it, with parameters \<open>pid, ..., pid + 7\<close>: the
  history of the discriminator loss is that of \<open>real\<close> (and of \<open>input_real\<close> in sequence
  mode) and the parameters; \<open>fake\<close> contributes nothing, since it is detached before the
  network sees it, and \<open>real\<close> is never detached. The history of the generator loss is
  that of \<open>fake\<close> (and of \<open>input_real\<close> in sequence mode) and the parameters: \<open>fake\<close> is
  passed to the network as it is.
\<close>

theorem detach_is_one_sided:
  assumes "Discriminator init pid ic dv sq ex = Inr (D0, p)"
  shows "(netD_adv_loss (to_D d D0) rl fake input_real = Inr l \<longrightarrow>
            lgrad_src l = grad_src rl \<union> (if sq then grad_src input_real else {}) \<union> {pid..<pid + 8})
       \<and> (netG_adv_loss (to_D d D0) fake input_real = Inr l' \<longrightarrow>
            lgrad_src l' = grad_src fake \<union> (if sq then grad_src input_real else {}) \<union> {pid..<pid + 8})"
proof (intro conjI impI)
  have sq: "seq (to_D d D0) = sq" by (rule built_layers(9)[OF assms])
  {
    assume "netD_adv_loss (to_D d D0) rl fake input_real = Inr l"
    then obtain r' f' pr pf where
      i: "netD_inputs (to_D d D0) rl fake input_real = Inr (r', f')" and
      pf: "forward (to_D d D0) (detach f') = Inr pf" and pr: "forward (to_D d D0) r' = Inr pr" and
      l: "lgrad_src l = grad_src pr \<union> grad_src pf"
      unfolding netD_adv_loss_built[OF assms] by auto
    from forward_Inr[OF assms pr] have gr: "grad_src pr = grad_src r' \<union> {pid..<pid + 8}"
      by (auto simp: meta_def)
    from forward_Inr[OF assms pf] have gf: "grad_src pf = {pid..<pid + 8}"
      by (auto simp: meta_def detach_def)
    from netD_inputs_Inr[OF i] sq have "grad_src r' = grad_src rl \<union> (if sq then grad_src input_real else {})"
      by simp
    with l gr gf
    show "lgrad_src l = grad_src rl \<union> (if sq then grad_src input_real else {}) \<union> {pid..<pid + 8}"
      by auto
  }
  {
    assume "netG_adv_loss (to_D d D0) fake input_real = Inr l'"
    then obtain f' pf where
      i: "netG_inputs (to_D d D0) fake input_real = Inr f'" and
      pf: "forward (to_D d D0) f' = Inr pf" and
      l: "lgrad_src l' = grad_src pf"
      unfolding netG_adv_loss_built[OF assms] by auto
    from forward_Inr[OF assms pf] have gf: "grad_src pf = grad_src f' \<union> {pid..<pid + 8}"
      by (auto simp: meta_def)
    from netG_inputs_Inr[OF i] sq have "grad_src f' = grad_src fake \<union> (if sq then grad_src input_real else {})"
      by simp
    with l gf
    show "lgrad_src l' = grad_src fake \<union> (if sq then grad_src input_real else {}) \<union> {pid..<pid + 8}"
      by auto
  }
qed

theorem detach_is_one_sided_witness:
  "\<exists>D0 p l l'. Discriminator (\<lambda>p k. 0) 0 3 CPU False True = Inr (D0, p)
     \<and> netD_adv_loss (to_D CPU D0) ((zeros [1, 1, 3, 16, 16] CPU)\<lparr>grad_src := {100}\<rparr>)
         ((zeros [1, 1, 3, 16, 16] CPU)\<lparr>grad_src := {200}\<rparr>) (zeros [1, 1, 3, 16, 16] CPU) = Inr l
     \<and> 100 \<in> lgrad_src l \<and> 200 \<notin> lgrad_src l
     \<and> netG_adv_loss (to_D CPU D0) ((zeros [1, 1, 3, 16, 16] CPU)\<lparr>grad_src := {200}\<rparr>)
         (zeros [1, 1, 3, 16, 16] CPU) = Inr l'
     \<and> 200 \<in> lgrad_src l'"
proof -
  let ?z = "zeros [1, 1, 3, 16, 16] CPU"
  let ?r = "?z\<lparr>grad_src := {100}\<rparr>"
  let ?f = "?z\<lparr>grad_src := {200}\<rparr>"
  obtain D0 p where b: "Discriminator (\<lambda>p k. 0) 0 3 CPU False True = Inr (D0, p)"
    using Discriminator_ok[of 3] by force
  from netD_adv_loss_flat_ok[OF b, of ?f 1 1 16 16 ?r ?z] obtain l where
    l: "netD_adv_loss (to_D CPU D0) ?r ?f ?z = Inr l" by auto
  from netG_adv_loss_flat_ok[OF b, of ?f 1 1 16 16 ?z] obtain l' where
    l': "netG_adv_loss (to_D CPU D0) ?f ?z = Inr l'" by auto
  note T = detach_is_one_sided[OF b, of CPU ?r ?f ?z l l']
  from T l have "lgrad_src l = {100} \<union> {0..<8}" by simp
  then have 1: "100 \<in> lgrad_src l" "200 \<notin> lgrad_src l" by simp_all
  from T l' have "lgrad_src l' = {200} \<union> {0..<8}" by simp
  then have 2: "200 \<in> lgrad_src l'" by simp
  from b l l' 1 2 show ?thesis by blast
qed

text \<open>
  C10 (corrected). As stated the claim fails: the view of \<open>real\<close> as \<open>(-1, c, h, w)\<close> does
  not compare element counts. With \<open>fake\<close> of shape \<open>(2, 1, 3, 16, 16)\<close> and \<open>real\<close> of shape
  \<open>(1, 1, 3, 16, 16)\<close> the counts differ (1536 and 768), yet both views succeed, with
  batch sizes 1 and 2, and netD_adv_loss returns a loss.
\<close>

theorem flatten_succeeds_with_different_counts:
  "\<exists>D0 p r f l. Discriminator (\<lambda>p k. 0) 0 3 CPU False True = Inr (D0, p)
     \<and> numel (shape (zeros [1, 1, 3, 16, 16] CPU)) \<noteq> numel (shape (zeros [2, 1, 3, 16, 16] CPU))
     \<and> netD_inputs (to_D CPU D0) (zeros [1, 1, 3, 16, 16] CPU) (zeros [2, 1, 3, 16, 16] CPU)
         (zeros [2, 1, 3, 16, 16] CPU) = Inr (r, f)
     \<and> shape r = [1, 3, 16, 16] \<and> shape f = [2, 3, 16, 16]
     \<and> netD_adv_loss (to_D CPU D0) (zeros [1, 1, 3, 16, 16] CPU) (zeros [2, 1, 3, 16, 16] CPU)
         (zeros [2, 1, 3, 16, 16] CPU) = Inr l"
proof -
  let ?r = "zeros [1, 1, 3, 16, 16] CPU"
  let ?f = "zeros [2, 1, 3, 16, 16] CPU"
  obtain D0 p where b: "Discriminator (\<lambda>p k. 0) 0 3 CPU False True = Inr (D0, p)"
    using Discriminator_ok[of 3] by force
  from netD_adv_loss_flat_ok[OF b, of ?f 2 1 16 16 ?r ?f] obtain l r0 f0 where
    l: "netD_adv_loss (to_D CPU D0) ?r ?f ?f = Inr l" and
    i0: "netD_inputs (to_D CPU D0) ?r ?f ?f = Inr (r0, f0)" and
    s0: "shape r0 = [1, 3, 16, 16]" "shape f0 = [2, 3, 16, 16]"
    by auto
  have "numel (shape ?r) \<noteq> numel (shape ?f)" by simp
  with b l i0 s0 show ?thesis by blast
qed

text \<open>
  C10 as amended. In netD_adv_loss with \<open>seq\<close> clear, \<open>real\<close> and \<open>fake\<close> are both viewed as
  \<open>(-1, c, h, w)\<close> with \<open>c, h, w\<close> read from \<open>fake\<close> alone. The step succeeds exactly when
  \<open>c * h * w\<close> is positive and divides the element count of \<open>real\<close>; \<open>real\<close> then keeps its
  elements in storage order and gets the shape \<open>(numel(real) / (c * h * w), c, h, w)\<close>,
  whatever its own shape was. In particular it succeeds, with batch size \<open>b * t\<close>, for
  every \<open>real\<close> whose element count equals that of \<open>fake\<close> when \<open>c * h * w\<close> is positive.
  It fails, with the library's error, in every other case.
\<close>

theorem netD_flatten_reshape:
  assumes "\<not> seq D" and "shape fake = [b, t, c, h, w]"
  shows "netD_inputs D rl fake input_real =
          (if c * h * w = 0 \<or> \<not> c * h * w dvd numel (shape rl) then Inl RuntimeError
           else Inr (rl\<lparr>shape := [numel (shape rl) div (c * h * w), c, h, w]\<rparr>,
                     fake\<lparr>shape := [b * t, c, h, w]\<rparr>))
       \<and> (numel (shape rl) = numel (shape fake) \<and> 0 < c * h * w \<longrightarrow>
            netD_inputs D rl fake input_real =
              Inr (rl\<lparr>shape := [b * t, c, h, w]\<rparr>, fake\<lparr>shape := [b * t, c, h, w]\<rparr>))"
proof
  show 1: "netD_inputs D rl fake input_real =
          (if c * h * w = 0 \<or> \<not> c * h * w dvd numel (shape rl) then Inl RuntimeError
           else Inr (rl\<lparr>shape := [numel (shape rl) div (c * h * w), c, h, w]\<rparr>,
                     fake\<lparr>shape := [b * t, c, h, w]\<rparr>))"
    by (rule netD_inputs_flat[OF assms])
  show "numel (shape rl) = numel (shape fake) \<and> 0 < c * h * w \<longrightarrow>
            netD_inputs D rl fake input_real =
              Inr (rl\<lparr>shape := [b * t, c, h, w]\<rparr>, fake\<lparr>shape := [b * t, c, h, w]\<rparr>)"
  proof
    assume a: "numel (shape rl) = numel (shape fake) \<and> 0 < c * h * w"
    have n: "numel (shape fake) = b * t * (c * h * w)" using assms(2) by (simp add: mult.assoc)
    have "c * h * w dvd numel (shape rl)" "numel (shape rl) div (c * h * w) = b * t"
      using a unfolding n by simp_all
    with a show "netD_inputs D rl fake input_real =
              Inr (rl\<lparr>shape := [b * t, c, h, w]\<rparr>, fake\<lparr>shape := [b * t, c, h, w]\<rparr>)"
      unfolding 1 by simp
  qed
qed

theorem netD_flatten_reshape_witness:
  "\<exists>D0 p. Discriminator (\<lambda>p k. 0) 0 3 CPU False True = Inr (D0, p)
     \<and> netD_inputs (to_D CPU D0) (zeros [1, 2, 16, 16, 3] CPU) (zeros [2, 1, 3, 16, 16] CPU)
         (zeros [2, 1, 3, 16, 16] CPU)
       = Inr ((zeros [1, 2, 16, 16, 3] CPU)\<lparr>shape := [2 * 1, 3, 16, 16]\<rparr>,
              (zeros [2, 1, 3, 16, 16] CPU)\<lparr>shape := [2 * 1, 3, 16, 16]\<rparr>)"
proof -
  let ?r = "zeros [1, 2, 16, 16, 3] CPU"
  let ?f = "zeros [2, 1, 3, 16, 16] CPU"
  obtain D0 p where b: "Discriminator (\<lambda>p k. 0) 0 3 CPU False True = Inr (D0, p)"
    using Discriminator_ok[of 3] by force
  have ns: "\<not> seq (to_D CPU D0)" using built_layers(9)[OF b] by simp
  have sf: "shape ?f = [2, 1, 3, 16, 16]" by simp
  have "numel (shape ?r) = numel (shape ?f) \<and> 0 < (3::nat) * 16 * 16" by simp
  with netD_flatten_reshape[OF ns sf, of ?r ?f]
  have "netD_inputs (to_D CPU D0) ?r ?f ?f
       = Inr (?r\<lparr>shape := [2 * 1, 3, 16, 16]\<rparr>, ?f\<lparr>shape := [2 * 1, 3, 16, 16]\<rparr>)"
    by blast
  with b show ?thesis by blast
qed

end
